theory Spec2Isabelle
  imports
    Main
    "HOL-Library.AList"
    "HOL-Library.Char_ord"
    "HOL-Library.List_Lexorder"
    "HOL-Library.Product_Lexorder"
begin

section \<open>The coin game engine over its Redis store\<close>

text \<open>
  The engine of \<^verbatim>\<open>src/server/game.js\<close> keeps no state of its own: every export sends
  commands to one Redis connection and continues in the callbacks. The embedding threads
  the store explicitly and runs one engine call, with the whole chain of its callbacks,
  to completion before the next call starts: a sequential history of calls. Calls whose
  callbacks interleave are outside it. The two random helpers of \<^verbatim>\<open>./gameutil\<close>, whose
  file is not part of the sources, are parameters of the engine functions that call
  them; a parameter stands for the helper as it answers during that call.

  \<^verbatim>\<open>src/unnamed/part_000\<close> is another version of the same module. Its \<^verbatim>\<open>addPlayer\<close>,
  \<^verbatim>\<open>placeCoins\<close> and \<^verbatim>\<open>move\<close> send the same commands and take the same decisions; they
  differ in what is logged, and the error branches of its \<^verbatim>\<open>move\<close> call a \<^verbatim>\<open>callback\<close>
  that the function does not declare. Its \<^verbatim>\<open>state\<close> is a different function and is
  embedded on its own.
\<close>

subsection \<open>Configuration\<close>

definition WIDTH :: nat where "WIDTH = 64"
definition HEIGHT :: nat where "HEIGHT = 64"
definition MAX_PLAYER_NAME_LENGTH :: nat where "MAX_PLAYER_NAME_LENGTH = 32"
definition NUM_COINS :: nat where "NUM_COINS = 100"

subsection \<open>JavaScript numbers and strings\<close>

text \<open>
  Coordinates travel through the store as text, \<^verbatim>\<open>"<x>,<y>"\<close>. A number is an integer or
  \<^verbatim>\<open>NaN\<close>; its text is the decimal numeral, with a minus sign when negative.
\<close>

datatype num = Num int | NaN

definition digit_char :: "nat \<Rightarrow> char" where
  "digit_char d = ''0123456789'' ! d"

function show_nat :: "nat \<Rightarrow> string" where
  "show_nat n = (if n < 10 then [digit_char n] else show_nat (n div 10) @ [digit_char (n mod 10)])"
  by pat_completeness auto
termination
  by (relation "measure id") auto

declare show_nat.simps [simp del]

text \<open>Number to string, as a template literal or \<^verbatim>\<open>toString\<close> prints it.\<close>

fun numToString :: "num \<Rightarrow> string" where
  "numToString NaN = ''NaN''"
| "numToString (Num i) = (if i < 0 then CHR ''-'' # show_nat (nat (- i)) else show_nat (nat i))"

definition digit_val :: "char \<Rightarrow> nat option" where
  "digit_val c = map_of
     [(CHR ''0'', 0), (CHR ''1'', 1), (CHR ''2'', 2), (CHR ''3'', 3), (CHR ''4'', 4),
      (CHR ''5'', 5), (CHR ''6'', 6), (CHR ''7'', 7), (CHR ''8'', 8), (CHR ''9'', 9)] c"

fun digits_value :: "nat \<Rightarrow> string \<Rightarrow> nat option" where
  "digits_value acc [] = Some acc"
| "digits_value acc (c # cs) =
     (case digit_val c of None \<Rightarrow> None | Some d \<Rightarrow> digits_value (10 * acc + d) cs)"

definition nat_of_string :: "string \<Rightarrow> nat option" where
  "nat_of_string s = (if s = [] then None else digits_value 0 s)"

text \<open>
  String to number, the unary \<^verbatim>\<open>+\<close> of \<^verbatim>\<open>move\<close>. The argument is \<open>None\<close> for
  \<^verbatim>\<open>undefined\<close>, which converts to \<^verbatim>\<open>NaN\<close>; the empty string converts to 0. The
  conversion is modelled on integer literals (an optional sign, then decimal digits) and
  reads every other string as \<^verbatim>\<open>NaN\<close>. JavaScript also reads fractions, exponents,
  radix prefixes, \<^verbatim>\<open>Infinity\<close> and surrounding white space; the engine never writes a
  record of those forms.
\<close>

definition toNumber :: "string option \<Rightarrow> num" where
  "toNumber v =
     (case v of
        None \<Rightarrow> NaN
      | Some [] \<Rightarrow> Num 0
      | Some (c # cs) \<Rightarrow>
          if c = CHR ''-'' then (case nat_of_string cs of None \<Rightarrow> NaN | Some n \<Rightarrow> Num (- int n))
          else if c = CHR ''+'' then (case nat_of_string cs of None \<Rightarrow> NaN | Some n \<Rightarrow> Num (int n))
          else (case nat_of_string (c # cs) of None \<Rightarrow> NaN | Some n \<Rightarrow> Num (int n)))"

text \<open>Addition and comparison; every comparison with \<^verbatim>\<open>NaN\<close> is false.\<close>

fun num_add :: "num \<Rightarrow> num \<Rightarrow> num" where
  "num_add (Num a) (Num b) = Num (a + b)"
| "num_add _ _ = NaN"

fun num_less :: "num \<Rightarrow> num \<Rightarrow> bool" where
  "num_less (Num a) (Num b) = (a < b)"
| "num_less _ _ = False"

text \<open>\<^verbatim>\<open>String.prototype.split\<close> with a one-character separator: never an empty array.\<close>

fun split :: "char \<Rightarrow> string \<Rightarrow> string list" where
  "split sep [] = [[]]"
| "split sep (c # cs) =
     (if c = sep then [] # split sep cs
      else (case split sep cs of [] \<Rightarrow> [[c]] | w # ws \<Rightarrow> (c # w) # ws))"

text \<open>Array destructuring \<^verbatim>\<open>const [x, y] = ...\<close>: a missing element is \<^verbatim>\<open>undefined\<close>.\<close>

definition element :: "'a list \<Rightarrow> nat \<Rightarrow> 'a option" where
  "element xs i = (if i < length xs then Some (xs ! i) else None)"

text \<open>
  Modelled from the spec: \<^verbatim>\<open>clamp\<close> of \<^verbatim>\<open>./gameutil\<close>, which is not part of the sources.
  It "returns low if value < low, high if value > high, else value".
\<close>

definition clamp :: "num \<Rightarrow> num \<Rightarrow> num \<Rightarrow> num" where
  "clamp v low high = (if num_less v low then low else if num_less high v then high else v)"

text \<open>
  Values a Redis reply or a callback argument can take here, and their truthiness.
  \<^verbatim>\<open>a && b\<close> is \<open>a\<close> when \<open>a\<close> is falsy, \<open>b\<close> otherwise.
\<close>

datatype jsval = JNull | JInt int | JStr string

fun truthy :: "jsval \<Rightarrow> bool" where
  "truthy JNull = False"
| "truthy (JInt i) = (i \<noteq> 0)"
| "truthy (JStr s) = (s \<noteq> [])"

definition js_and :: "jsval \<Rightarrow> jsval \<Rightarrow> jsval" where
  "js_and a b = (if truthy a then b else a)"

subsection \<open>The Redis store\<close>

text \<open>
  The layout is the one the header of \<^verbatim>\<open>game.js\<close> gives: a string \<^verbatim>\<open>player:<name>\<close> per
  player, the sorted set \<^verbatim>\<open>scores\<close>, the hash \<^verbatim>\<open>coins\<close> and the set \<^verbatim>\<open>usednames\<close>.
  Strings, sorted set and hash are association lists in insertion order, one entry per
  key. The commands follow the Redis command reference; each write returns the reply
  that node_redis hands to a callback, and the new store.
\<close>

record store =
  usednames :: "string set"
  strings :: "(string \<times> string) list"
  scores :: "(string \<times> int) list"
  coins :: "(string \<times> string) list"

definition empty_store :: store where
  "empty_store = \<lparr>usednames = {}, strings = [], scores = [], coins = []\<rparr>"

definition sismember :: "string \<Rightarrow> store \<Rightarrow> jsval" where
  "sismember member s = JInt (if member \<in> usednames s then 1 else 0)"

definition sadd :: "string \<Rightarrow> store \<Rightarrow> jsval \<times> store" where
  "sadd member s =
     (JInt (if member \<in> usednames s then 0 else 1), s\<lparr>usednames := insert member (usednames s)\<rparr>)"

definition set_string :: "string \<Rightarrow> string \<Rightarrow> store \<Rightarrow> jsval \<times> store" where
  "set_string key v s = (JStr ''OK'', s\<lparr>strings := AList.update key v (strings s)\<rparr>)"

definition get :: "string \<Rightarrow> store \<Rightarrow> string option" where
  "get key s = map_of (strings s) key"

definition zadd :: "int \<Rightarrow> string \<Rightarrow> store \<Rightarrow> jsval \<times> store" where
  "zadd score member s =
     (JInt (if member \<in> fst ` set (scores s) then 0 else 1),
      s\<lparr>scores := AList.update member score (scores s)\<rparr>)"

definition zscore :: "string \<Rightarrow> store \<Rightarrow> int option" where
  "zscore member s = map_of (scores s) member"

text \<open>
  \<^verbatim>\<open>ZINCRBY\<close> creates a missing member with score 0 first. An increment that is not a
  number is an error reply and changes nothing.
\<close>

definition zincrby :: "string \<Rightarrow> string \<Rightarrow> store \<Rightarrow> store" where
  "zincrby increment member s =
     (case (if increment = [] then NaN else toNumber (Some increment)) of
        NaN \<Rightarrow> s
      | Num d \<Rightarrow>
          s\<lparr>scores := AList.update member
                (d + (case zscore member s of None \<Rightarrow> 0 | Some v \<Rightarrow> v)) (scores s)\<rparr>)"

definition hget :: "string \<Rightarrow> store \<Rightarrow> string option" where
  "hget field s = map_of (coins s) field"

definition hsetnx :: "string \<Rightarrow> string \<Rightarrow> store \<Rightarrow> store" where
  "hsetnx field v s =
     (if field \<in> fst ` set (coins s) then s else s\<lparr>coins := coins s @ [(field, v)]\<rparr>)"

definition hdel :: "string \<Rightarrow> store \<Rightarrow> store" where
  "hdel field s = s\<lparr>coins := AList.delete field (coins s)\<rparr>"

definition hlen :: "store \<Rightarrow> nat" where
  "hlen s = length (coins s)"

definition del_coins :: "store \<Rightarrow> store" where
  "del_coins s = s\<lparr>coins := []\<rparr>"

text \<open>
  A command can also fail: its callback then receives an error and the store is as
  before. Each engine call takes the set of commands that fail while it runs. The
  commands that \<^verbatim>\<open>move\<close> sends without a callback have no error path in the source.
\<close>

datatype command = SISMEMBER | EXEC | DEL | GET | HGET | HLEN | KEYS | MGET | ZREVRANGE | HGETALL

subsection \<open>Admission\<close>

text \<open>
  \<^verbatim>\<open>callback(err)\<close> is \<open>Failed\<close>, \<^verbatim>\<open>callback(null, b)\<close> is \<open>NameWorks b\<close>. The source has
  one rejection value, \<^verbatim>\<open>false\<close>, for an empty name, a long name and a used name.
  \<open>randomPoint\<close> stands for the helper of \<^verbatim>\<open>./gameutil\<close> as it answers in this call;
  the array it returns prints as \<^verbatim>\<open>"<x>,<y>"\<close>.
\<close>

datatype callback = Failed | NameWorks bool

definition player_key :: "string \<Rightarrow> string" where
  "player_key name = ''player:'' @ name"

definition coords :: "num \<Rightarrow> num \<Rightarrow> string" where
  "coords x y = numToString x @ CHR '','' # numToString y"

definition point_string :: "nat \<times> nat \<Rightarrow> string" where
  "point_string p = coords (Num (int (fst p))) (Num (int (snd p)))"

definition addPlayer ::
    "command set \<Rightarrow> (nat \<Rightarrow> nat \<Rightarrow> nat \<times> nat) \<Rightarrow> string \<Rightarrow> store \<Rightarrow> callback \<times> store" where
  "addPlayer flt randomPoint name s =
     (if SISMEMBER \<in> flt then (Failed, s)
      else
        let res = sismember name s in
        if length name = 0 \<or> length name > MAX_PLAYER_NAME_LENGTH \<or> truthy res
        then (NameWorks False, s)
        else if EXEC \<in> flt then (Failed, s)
        else
          let (r1, s1) = sadd name s;
              (r2, s2) = set_string (player_key name) (point_string (randomPoint WIDTH HEIGHT)) s1;
              (r3, s3) = zadd 0 name s2
          in (NameWorks (truthy (js_and (js_and r1 r2) r3)), s3))"

subsection \<open>The coin field\<close>

text \<open>
  \<open>permutation\<close> stands for the helper of \<^verbatim>\<open>./gameutil\<close> as it answers in this call.
  A failed \<^verbatim>\<open>DEL\<close> is logged and the batch is sent all the same; a failed \<^verbatim>\<open>EXEC\<close>
  is logged and sets no coin.
\<close>

definition coinValue :: "nat \<Rightarrow> nat" where
  "coinValue i = (if i < 50 then 1 else if i < 75 then 2 else if i < 95 then 5 else 10)"

definition coinIndex :: "nat \<Rightarrow> string" where
  "coinIndex position = coords (Num (int (position div WIDTH))) (Num (int (position mod WIDTH)))"

definition coinBatch :: "nat list \<Rightarrow> (string \<times> string) list" where
  "coinBatch ps = map (\<lambda>(i, position). (coinIndex position, show_nat (coinValue i))) (enumerate 0 ps)"

definition placeCoins :: "command set \<Rightarrow> (nat \<Rightarrow> nat list) \<Rightarrow> store \<Rightarrow> store" where
  "placeCoins flt permutation s =
     (let s1 = (if DEL \<in> flt then s else del_coins s);
          multiSubmit = coinBatch (take NUM_COINS (permutation (WIDTH * HEIGHT)))
      in if EXEC \<in> flt then s1
         else foldl (\<lambda>t (index, coinValue). hsetnx index coinValue t) s1 multiSubmit)"

subsection \<open>Movement\<close>

text \<open>
  The direction indexes an object literal with the keys U, R, D and L. A name that every
  object inherits from \<^verbatim>\<open>Object.prototype\<close> also gives a truthy value; its elements 0
  and 1 are \<^verbatim>\<open>undefined\<close>, which make the sums \<^verbatim>\<open>NaN\<close>.
\<close>

definition prototype_keys :: "string list" where
  "prototype_keys =
     [''constructor'', ''toString'', ''toLocaleString'', ''valueOf'', ''hasOwnProperty'',
      ''isPrototypeOf'', ''propertyIsEnumerable'', ''__proto__'', ''__defineGetter__'',
      ''__defineSetter__'', ''__lookupGetter__'', ''__lookupSetter__'']"

definition delta_of :: "string \<Rightarrow> (num \<times> num) option" where
  "delta_of direction =
     (if direction = ''U'' then Some (Num 0, Num (- 1))
      else if direction = ''R'' then Some (Num 1, Num 0)
      else if direction = ''D'' then Some (Num 0, Num 1)
      else if direction = ''L'' then Some (Num (- 1), Num 0)
      else if direction \<in> set prototype_keys then Some (NaN, NaN)
      else None)"

text \<open>
  \<^verbatim>\<open>move\<close> returns nothing; \<open>ending\<close> records where its chain of callbacks stops:
  no delta, an error reply (\<^verbatim>\<open>return err\<close>), the exception of \<^verbatim>\<open>res.split\<close> when
  \<^verbatim>\<open>GET\<close> replies \<^verbatim>\<open>null\<close>, or the last callback, with or without \<^verbatim>\<open>placeCoins()\<close>.
\<close>

datatype ending = Ignored | StoreError | TypeError | Settled | Refilled

definition destination :: "num \<times> num \<Rightarrow> string \<Rightarrow> string" where
  "destination delta res =
     (let xy = split (CHR '','') res;
          x = element xy 0;
          y = element xy 1;
          newX = clamp (num_add (toNumber x) (fst delta)) (Num 0) (Num (int WIDTH - 1));
          newY = clamp (num_add (toNumber y) (snd delta)) (Num 0) (Num (int HEIGHT - 1))
      in coords newX newY)"

definition pickup :: "string \<Rightarrow> string \<Rightarrow> store \<Rightarrow> store" where
  "pickup name cell s =
     (let s1 = (case hget cell s of
                  None \<Rightarrow> s
                | Some res \<Rightarrow> if truthy (JStr res) then hdel cell (zincrby res name s) else s)
      in snd (set_string (player_key name) cell s1))"

definition move ::
    "command set \<Rightarrow> (nat \<Rightarrow> nat list) \<Rightarrow> string \<Rightarrow> string \<Rightarrow> store \<Rightarrow> ending \<times> store" where
  "move flt permutation direction name s =
     (case delta_of direction of
        None \<Rightarrow> (Ignored, s)
      | Some delta \<Rightarrow>
          if GET \<in> flt then (StoreError, s)
          else
            (case get (player_key name) s of
               None \<Rightarrow> (TypeError, s)
             | Some res \<Rightarrow>
                 if HGET \<in> flt then (StoreError, s)
                 else
                   let s2 = pickup name (destination delta res) s in
                   if HLEN \<in> flt then (StoreError, s2)
                   else if hlen s2 = 0 then (Refilled, placeCoins flt permutation s2)
                   else (Settled, s2)))"

subsection \<open>The snapshot\<close>

text \<open>
  \<^verbatim>\<open>state\<close> of \<^verbatim>\<open>src/server/game.js\<close> takes no callback. It sends \<^verbatim>\<open>KEYS\<close>, whose
  callback sends \<^verbatim>\<open>MGET\<close> and drops the reply, and then executes \<^verbatim>\<open>return null\<close>; the
  statements after it, which would build a snapshot from the in-memory \<^verbatim>\<open>database\<close>
  object, never run. The result is \<open>None\<close> for \<^verbatim>\<open>null\<close>.
\<close>

record snapshot =
  positions :: "string \<rightharpoonup> string"
  ranking :: "(string \<times> string option) list"
  field :: "(string \<rightharpoonup> string) option"

definition keys :: "string \<Rightarrow> store \<Rightarrow> string list" where
  "keys prefix s = filter (\<lambda>k. take (length prefix) k = prefix) (map fst (strings s))"

definition mget :: "string list \<Rightarrow> store \<Rightarrow> string option list" where
  "mget ks s = map (\<lambda>k. get k s) ks"

definition state :: "command set \<Rightarrow> store \<Rightarrow> snapshot option" where
  "state flt s =
     (let names = keys ''player:'' s;
          positions = (if KEYS \<in> flt \<or> MGET \<in> flt then [] else mget names s)
      in None)"

text \<open>
  \<^verbatim>\<open>state\<close> of \<^verbatim>\<open>src/unnamed/part_000\<close> takes a callback and hands it the snapshot.
  \<^verbatim>\<open>MGET\<close> without a key is an error reply. \<^verbatim>\<open>ZREVRANGE ... WITHSCORES\<close> replies with the
  members from the highest to the lowest score, equal scores in descending order of the
  member, each followed by its score; its callback does not look at \<^verbatim>\<open>err\<close> and reads
  \<^verbatim>\<open>res2.length\<close>, which throws when the reply is missing. node_redis turns the reply of
  \<^verbatim>\<open>HGETALL\<close> into an object, or \<^verbatim>\<open>null\<close> when the hash is empty. The positions are
  collected in a plain object, on which an assignment of a string to \<^verbatim>\<open>__proto__\<close> has
  no effect.
\<close>

datatype state_callback = StateFailed | StateThrew | StateOk snapshot

definition zrevrange_withscores :: "store \<Rightarrow> string list" where
  "zrevrange_withscores s =
     concat (map (\<lambda>(member, score). [member, numToString (Num score)])
       (rev (sort_key (\<lambda>(member, score). (score, member)) (scores s))))"

fun pairs :: "string list \<Rightarrow> (string \<times> string option) list" where
  "pairs [] = []"
| "pairs [a] = [(a, None)]"
| "pairs (a # b # rest) = (a, Some b) # pairs rest"

definition hgetall :: "store \<Rightarrow> (string \<rightharpoonup> string) option" where
  "hgetall s = (if coins s = [] then None else Some (map_of (coins s)))"

definition state_part_000 :: "command set \<Rightarrow> store \<Rightarrow> state_callback" where
  "state_part_000 flt s =
     (if KEYS \<in> flt then StateFailed
      else
        let names = keys ''player:'' s in
        if MGET \<in> flt \<or> names = [] then StateFailed
        else
          let res = mget names s;
              positions = fold (\<lambda>(name, v) m. if drop 7 name = ''__proto__'' then m
                                               else m(drop 7 name := v)) (zip names res) Map.empty
          in if ZREVRANGE \<in> flt then StateThrew
             else
               let scores = pairs (zrevrange_withscores s) in
               if HGETALL \<in> flt then StateFailed
               else StateOk \<lparr>positions = positions, ranking = scores, field = hgetall s\<rparr>)"

subsection \<open>Histories of calls\<close>

text \<open>
  A history is a list of engine calls, each with the helpers' answers and the commands
  that fail during it; \<open>run\<close> performs them in order. \<^verbatim>\<open>state\<close> writes nothing.
\<close>

datatype call =
    AddPlayer "nat \<Rightarrow> nat \<Rightarrow> nat \<times> nat" string
  | PlaceCoins "nat \<Rightarrow> nat list"
  | Move "nat \<Rightarrow> nat list" string string
  | State

fun perform :: "command set \<times> call \<Rightarrow> store \<Rightarrow> store" where
  "perform (flt, AddPlayer randomPoint name) s = snd (addPlayer flt randomPoint name s)"
| "perform (flt, PlaceCoins permutation) s = placeCoins flt permutation s"
| "perform (flt, Move permutation direction name) s = snd (move flt permutation direction name s)"
| "perform (flt, State) s = s"

definition run :: "(command set \<times> call) list \<Rightarrow> store \<Rightarrow> store" where
  "run history s = fold perform history s"

subsection \<open>Properties of stores and of the helpers' answers\<close>

text \<open>The position record of a player at the cell \<open>(x, y)\<close>.\<close>

definition cell :: "nat \<Rightarrow> nat \<Rightarrow> string" where
  "cell x y = coords (Num (int x)) (Num (int y))"

text \<open>
  A store is consistent when the registry, the score board and the position records
  name the same players.
\<close>

definition consistent :: "store \<Rightarrow> bool" where
  "consistent s \<longleftrightarrow>
     fst ` set (scores s) = usednames s \<and> fst ` set (strings s) = player_key ` usednames s"

text \<open>
  The specification (section 4.3) names the outcome of an admission: \<open>InvalidName\<close> for
  a name that is empty or longer than 32 characters, \<open>NameTaken\<close> for a name that is
  claimed already, \<open>Admitted\<close> otherwise. \<open>addPlayer_spec\<close> follows those words, to be
  compared with the flag that \<^verbatim>\<open>addPlayer\<close> hands to its callback.
\<close>

datatype reason = InvalidName | NameTaken

datatype outcome = Admitted | Rejected reason

definition addPlayer_spec :: "string \<Rightarrow> store \<Rightarrow> outcome" where
  "addPlayer_spec name s =
     (if length name = 0 \<or> 32 < length name then Rejected InvalidName
      else if name \<in> usednames s then Rejected NameTaken
      else Admitted)"

text \<open>
  Modelled from the spec: \<^verbatim>\<open>permutation\<close> of \<^verbatim>\<open>./gameutil\<close>, which is not part of the
  sources, "must produce each index exactly once": a sequence of \<open>0..n-1\<close> in some order.
\<close>

definition each_index_once :: "(nat \<Rightarrow> nat list) \<Rightarrow> nat \<Rightarrow> bool" where
  "each_index_once permutation n \<longleftrightarrow>
     distinct (permutation n) \<and> set (permutation n) = {0..<n}"

text \<open>
  A call is regular when every command it sends is answered and its permutation helper
  answers with each index of the grid once.
\<close>

fun regular :: "command set \<times> call \<Rightarrow> bool" where
  "regular (flt, AddPlayer randomPoint name) = (flt = {})"
| "regular (flt, PlaceCoins permutation) = (flt = {} \<and> each_index_once permutation (WIDTH * HEIGHT))"
| "regular (flt, Move permutation direction name) =
     (flt = {} \<and> each_index_once permutation (WIDTH * HEIGHT))"
| "regular (flt, State) = (flt = {})"

subsection \<open>Example answers and stores\<close>

text \<open>A permutation helper that answers with the indices in order.\<close>

definition identity :: "nat \<Rightarrow> nat list" where
  "identity n = [0..<n]"

text \<open>Alice stands on the top edge at \<open>(5, 0)\<close>, Bob at \<open>(7, 7)\<close>; two coins are left.\<close>

definition top_edge_store :: store where
  "top_edge_store =
     \<lparr>usednames = {''Alice'', ''Bob''},
      strings = [(''player:Alice'', ''5,0''), (''player:Bob'', ''7,7'')],
      scores = [(''Alice'', 0), (''Bob'', 3)],
      coins = [(''5,1'', ''2''), (''9,9'', ''5'')]\<rparr>"

text \<open>A random-point helper that answers \<open>(1, 0)\<close>.\<close>

definition corner :: "nat \<Rightarrow> nat \<Rightarrow> nat \<times> nat" where
  "corner width height = (1, 0)"

text \<open>
  Bob has collected 99 coins of a field laid out by \<open>identity\<close>; the last one, of value 1,
  lies at \<open>(0, 0)\<close>, next to Alice.
\<close>

definition last_coin_store :: store where
  "last_coin_store =
     \<lparr>usednames = {''Alice'', ''Bob''},
      strings = [(''player:Alice'', ''1,0''), (''player:Bob'', ''7,7'')],
      scores = [(''Alice'', 0), (''Bob'', 249)],
      coins = [(''0,0'', ''1'')]\<rparr>"

text \<open>The same players on an empty field.\<close>

definition empty_field_store :: store where
  "empty_field_store =
     \<lparr>usednames = {''Alice'', ''Bob''},
      strings = [(''player:Alice'', ''0,0''), (''player:Bob'', ''7,7'')],
      scores = [(''Alice'', 1), (''Bob'', 249)],
      coins = []\<rparr>"

section \<open>Decimal numerals and cells\<close>

text \<open>Printing a natural number and reading it back are inverse; a numeral has no comma.\<close>

lemma show_nat_digit: "n < 10 \<Longrightarrow> show_nat n = [digit_char n]"
  by (simp add: show_nat.simps)

lemma show_nat_step: "10 \<le> n \<Longrightarrow> show_nat n = show_nat (n div 10) @ [digit_char (n mod 10)]"
  by (subst show_nat.simps) simp

lemma below_ten: "d < 10 \<Longrightarrow> d \<in> {0, 1, 2, 3, 4, 5, 6, 7, 8, 9::nat}"
  by auto

lemma digit_val_digit_char: "d < 10 \<Longrightarrow> digit_val (digit_char d) = Some d"
  using below_ten [of d] by (auto simp: digit_val_def digit_char_def)

lemma digit_char_in: "d < 10 \<Longrightarrow> digit_char d \<in> set ''0123456789''"
  using below_ten [of d] by (auto simp: digit_char_def)

lemma show_nat_not_Nil: "show_nat n \<noteq> []"
  by (subst show_nat.simps) simp

lemma show_nat_digits: "set (show_nat n) \<subseteq> set ''0123456789''"
proof (induction n rule: show_nat.induct)
  case (1 n)
  show ?case
  proof (cases "n < 10")
    case True
    then show ?thesis using digit_char_in [of n] by (simp add: show_nat_digit)
  next
    case False
    then have "set (show_nat (n div 10)) \<subseteq> set ''0123456789''" using 1 by simp
    moreover have "digit_char (n mod 10) \<in> set ''0123456789''" by (rule digit_char_in) simp
    ultimately show ?thesis using False by (simp add: show_nat_step)
  qed
qed

lemma digits_value_append:
  "digits_value acc (xs @ ys) =
     (case digits_value acc xs of None \<Rightarrow> None | Some v \<Rightarrow> digits_value v ys)"
  by (induction xs arbitrary: acc) (auto split: option.splits)

lemma digits_value_show_nat: "digits_value 0 (show_nat n) = Some n"
proof (induction n rule: show_nat.induct)
  case (1 n)
  show ?case
  proof (cases "n < 10")
    case True
    then show ?thesis by (simp add: show_nat_digit digit_val_digit_char)
  next
    case False
    then have "digits_value 0 (show_nat (n div 10)) = Some (n div 10)" using 1 by simp
    then show ?thesis using False
      by (simp add: show_nat_step digits_value_append digit_val_digit_char)
  qed
qed

lemma nat_of_string_show_nat: "nat_of_string (show_nat n) = Some n"
  by (simp add: nat_of_string_def show_nat_not_Nil digits_value_show_nat)

lemma show_nat_inj: "show_nat a = show_nat b \<Longrightarrow> a = b"
  by (metis nat_of_string_show_nat option.inject)

lemma show_nat_no_sign: "CHR '','' \<notin> set (show_nat n)" "hd (show_nat n) \<noteq> CHR ''-''" "hd (show_nat n) \<noteq> CHR ''+''"
proof -
  have a: "set (show_nat n) \<subseteq> set ''0123456789''" by (rule show_nat_digits)
  then show "CHR '','' \<notin> set (show_nat n)" by auto
  have "hd (show_nat n) \<in> set (show_nat n)" by (simp add: show_nat_not_Nil)
  then have "hd (show_nat n) \<in> set ''0123456789''" using a by blast
  then show "hd (show_nat n) \<noteq> CHR ''-''" "hd (show_nat n) \<noteq> CHR ''+''" by auto
qed

lemma toNumber_show_nat: "toNumber (Some (show_nat n)) = Num (int n)"
proof (cases "show_nat n")
  case Nil
  then show ?thesis by (simp add: show_nat_not_Nil)
next
  case (Cons c cs)
  then have "c \<noteq> CHR ''-''" "c \<noteq> CHR ''+''" using show_nat_no_sign(2,3) [of n] by auto
  moreover have "nat_of_string (c # cs) = Some n" using Cons nat_of_string_show_nat [of n] by simp
  ultimately show ?thesis using Cons by (simp add: toNumber_def)
qed

lemma split_no_sep: "sep \<notin> set a \<Longrightarrow> split sep a = [a]"
  by (induction a) auto

lemma split_at_sep: "sep \<notin> set a \<Longrightarrow> split sep (a @ sep # b) = a # split sep b"
  by (induction a) auto

lemma cell_eq: "cell x y = show_nat x @ CHR '','' # show_nat y"
  by (simp add: cell_def coords_def)

lemma point_string_cell: "point_string p = cell (fst p) (snd p)"
  by (simp add: point_string_def cell_def)

lemma split_cell: "split (CHR '','') (cell x y) = [show_nat x, show_nat y]"
  by (simp add: cell_eq split_at_sep split_no_sep show_nat_no_sign(1))

lemma cell_inj: "cell a b = cell c d \<Longrightarrow> a = c \<and> b = d"
proof -
  assume "cell a b = cell c d"
  then have "split (CHR '','') (cell a b) = split (CHR '','') (cell c d)" by simp
  then show ?thesis by (simp add: split_cell show_nat_inj)
qed

lemma clamp_Num:
  "0 < n \<Longrightarrow> clamp (Num i) (Num 0) (Num (int n - 1)) = Num (int (nat (max 0 (min (int n - 1) i))))"
  by (auto simp: clamp_def)

lemma destination_cell:
  "destination (Num dx, Num dy) (cell x y) =
     cell (nat (max 0 (min (int WIDTH - 1) (int x + dx)))) (nat (max 0 (min (int HEIGHT - 1) (int y + dy))))"
proof -
  have w: "0 < WIDTH" "0 < HEIGHT" by (simp_all add: WIDTH_def HEIGHT_def)
  show ?thesis
    unfolding destination_def Let_def split_cell
    by (simp add: element_def toNumber_show_nat clamp_Num [OF w(1)] clamp_Num [OF w(2)] cell_def
        del: numToString.simps)
qed

lemma player_key_inj: "player_key a = player_key b \<Longrightarrow> a = b"
  by (simp add: player_key_def)

section \<open>What each command and each call leaves alone\<close>

lemma hsetnx_frame:
  "usednames (hsetnx i v s) = usednames s"
  "strings (hsetnx i v s) = strings s"
  "scores (hsetnx i v s) = scores s"
  by (simp_all add: hsetnx_def)

lemma foldl_hsetnx_frame:
  "usednames (foldl (\<lambda>t (i, v). hsetnx i v t) s xs) = usednames s \<and>
   strings (foldl (\<lambda>t (i, v). hsetnx i v t) s xs) = strings s \<and>
   scores (foldl (\<lambda>t (i, v). hsetnx i v t) s xs) = scores s"
  by (induction xs arbitrary: s) (simp_all add: hsetnx_frame split: prod.splits)

lemma placeCoins_frame:
  "usednames (placeCoins flt permutation s) = usednames s"
  "strings (placeCoins flt permutation s) = strings s"
  "scores (placeCoins flt permutation s) = scores s"
  by (simp_all add: placeCoins_def Let_def foldl_hsetnx_frame del_coins_def)

lemma get_placeCoins: "get k (placeCoins flt permutation s) = get k s"
  by (simp add: get_def placeCoins_frame)

lemma zscore_placeCoins: "zscore m (placeCoins flt permutation s) = zscore m s"
  by (simp add: zscore_def placeCoins_frame)

lemma zincrby_frame:
  "usednames (zincrby i name s) = usednames s"
  "strings (zincrby i name s) = strings s"
  "coins (zincrby i name s) = coins s"
  by (simp_all add: zincrby_def split: num.splits)

lemma zscore_zincrby_other: "other \<noteq> name \<Longrightarrow> zscore other (zincrby i name s) = zscore other s"
  by (simp add: zincrby_def zscore_def update_conv' split: num.splits)

lemma pickup_usednames: "usednames (pickup name c s) = usednames s"
  by (simp add: pickup_def Let_def set_string_def hdel_def zincrby_frame split: option.splits)

lemma pickup_strings: "strings (pickup name c s) = AList.update (player_key name) c (strings s)"
  by (simp add: pickup_def Let_def set_string_def hdel_def zincrby_frame split: option.splits)

lemma get_pickup: "get k (pickup name c s) = (if k = player_key name then Some c else get k s)"
  by (simp add: get_def pickup_strings update_conv')

lemma zscore_pickup_other: "other \<noteq> name \<Longrightarrow> zscore other (pickup name c s) = zscore other s"
  by (simp add: pickup_def Let_def set_string_def hdel_def zscore_def zincrby_def update_conv'
      split: option.splits num.splits)

lemma move_usednames: "usednames (snd (move flt permutation direction name s)) = usednames s"
  by (simp add: move_def Let_def placeCoins_frame pickup_usednames split: option.splits)

lemma get_move:
  "get k (snd (move flt permutation direction name s)) =
     (case delta_of direction of
        None \<Rightarrow> get k s
      | Some delta \<Rightarrow>
          if GET \<in> flt \<or> HGET \<in> flt then get k s
          else (case get (player_key name) s of
                  None \<Rightarrow> get k s
                | Some res \<Rightarrow> if k = player_key name then Some (destination delta res) else get k s))"
  by (simp add: move_def Let_def get_placeCoins get_pickup split: option.splits)

lemma zscore_move_other:
  "other \<noteq> name \<Longrightarrow> zscore other (snd (move flt permutation direction name s)) = zscore other s"
  by (simp add: move_def Let_def zscore_placeCoins zscore_pickup_other split: option.splits)


section \<open>Movement\<close>

lemma delta_of_recognized:
  "delta_of ''U'' = Some (Num 0, Num (- 1))"
  "delta_of ''R'' = Some (Num 1, Num 0)"
  "delta_of ''D'' = Some (Num 0, Num 1)"
  "delta_of ''L'' = Some (Num (- 1), Num 0)"
  by (simp_all add: delta_of_def)

lemma clamped_coordinate:
  "c < n \<Longrightarrow> nat (max 0 (min (int n - 1) (int c + 0))) = c"
  "c < n \<Longrightarrow> nat (max 0 (min (int n - 1) (int c + 1))) = (if c = n - 1 then c else c + 1)"
  "c < n \<Longrightarrow> nat (max 0 (min (int n - 1) (int c + - 1))) = (if c = 0 then 0 else c - 1)"
  by auto

lemma move_position:
  assumes "get (player_key name) s = Some (cell x y)" and "x < WIDTH" and "y < HEIGHT"
    and "GET \<notin> flt" and "HGET \<notin> flt"
  shows "get (player_key name) (snd (move flt permutation ''U'' name s))
           = Some (cell x (if y = 0 then 0 else y - 1))"
    and "get (player_key name) (snd (move flt permutation ''R'' name s))
           = Some (cell (if x = WIDTH - 1 then x else x + 1) y)"
    and "get (player_key name) (snd (move flt permutation ''D'' name s))
           = Some (cell x (if y = HEIGHT - 1 then y else y + 1))"
    and "get (player_key name) (snd (move flt permutation ''L'' name s))
           = Some (cell (if x = 0 then 0 else x - 1) y)"
  using assms
  by (simp_all only: get_move delta_of_recognized option.case if_False simp_thms if_True
      destination_cell clamped_coordinate)


lemma cell_5_0: "cell 5 0 = ''5,0''"
  by (simp add: cell_eq show_nat_digit digit_char_def)


text \<open>
  C4. A player whose record is the in-bounds cell \<open>(x, y)\<close> moves in one of the four
  directions. Whatever commands fail, the record afterwards is a cell \<open>(x', y')\<close> of
  the grid that equals \<open>(x, y)\<close> or is one unit away along one axis. When the two reads
  of the move are answered, it is the neighbour in the direction, with the coordinate
  stopped at the edge: U takes 1 from \<open>y\<close>, R adds 1 to \<open>x\<close>, D adds 1 to \<open>y\<close>, L takes 1
  from \<open>x\<close>. The witness is the move Up from \<open>(5, 0)\<close>, which ends at \<open>(5, 0)\<close>.
\<close>

theorem move_stays_on_grid:
  assumes "get (player_key name) s = Some (cell x y)" and "x < WIDTH" and "y < HEIGHT"
    and "direction \<in> {''U'', ''R'', ''D'', ''L''}"
  shows "\<exists>x' y'. get (player_key name) (snd (move flt permutation direction name s)) = Some (cell x' y')
           \<and> x' < WIDTH \<and> y' < HEIGHT
           \<and> ((x' = x \<and> y' = y) \<or> (x' = x \<and> (y' = y + 1 \<or> y' + 1 = y)) \<or> (y' = y \<and> (x' = x + 1 \<or> x' + 1 = x)))
           \<and> (GET \<notin> flt \<and> HGET \<notin> flt \<longrightarrow>
                (direction = ''U'' \<longrightarrow> x' = x \<and> y' = (if y = 0 then 0 else y - 1)) \<and>
                (direction = ''R'' \<longrightarrow> x' = (if x = WIDTH - 1 then x else x + 1) \<and> y' = y) \<and>
                (direction = ''D'' \<longrightarrow> x' = x \<and> y' = (if y = HEIGHT - 1 then y else y + 1)) \<and>
                (direction = ''L'' \<longrightarrow> x' = (if x = 0 then 0 else x - 1) \<and> y' = y))"
proof (cases "GET \<in> flt \<or> HGET \<in> flt")
  case True
  then have "get (player_key name) (snd (move flt permutation direction name s)) = Some (cell x y)"
    using assms(1) by (simp add: get_move split: option.splits)
  then show ?thesis using assms(2,3) True by blast
next
  case False
  then have nf: "GET \<notin> flt" "HGET \<notin> flt" by simp_all
  note pos = move_position [OF assms(1-3) nf, of permutation]
  consider (U) "direction = ''U''" | (R) "direction = ''R''" | (D) "direction = ''D''" | (L) "direction = ''L''"
    using assms(4) by blast
  then show ?thesis
  proof cases
    case U
    show ?thesis
      apply (rule exI [of _ x], rule exI [of _ "if y = 0 then 0 else y - 1"])
      using pos(1) assms(2,3) by (auto simp: U)
  next
    case R
    show ?thesis
      apply (rule exI [of _ "if x = WIDTH - 1 then x else x + 1"], rule exI [of _ y])
      using pos(2) assms(2,3) by (simp add: R WIDTH_def)
  next
    case D
    show ?thesis
      apply (rule exI [of _ x], rule exI [of _ "if y = HEIGHT - 1 then y else y + 1"])
      using pos(3) assms(2,3) by (simp add: D HEIGHT_def)
  next
    case L
    show ?thesis
      apply (rule exI [of _ "if x = 0 then 0 else x - 1"], rule exI [of _ y])
      using pos(4) assms(2,3) by (auto simp: L)
  qed
qed

theorem move_stays_on_grid_witness:
  "get (player_key ''Alice'') top_edge_store = Some (cell 5 0) \<and> (5::nat) < WIDTH \<and> (0::nat) < HEIGHT
   \<and> ''U'' \<in> {''U'', ''R'', ''D'', ''L''}
   \<and> get (player_key ''Alice'') (snd (move {} identity ''U'' ''Alice'' top_edge_store)) = Some (cell 5 0)"
proof -
  have a: "get (player_key ''Alice'') top_edge_store = Some (cell 5 0)"
    by (simp add: get_def player_key_def top_edge_store_def cell_5_0)
  have b: "(5::nat) < WIDTH" "(0::nat) < HEIGHT" by (simp_all add: WIDTH_def HEIGHT_def)
  have c: "''U'' \<in> {''U'', ''R'', ''D'', ''L''}" by simp
  from move_stays_on_grid [OF a b c, of "{}" identity]
  obtain x' y' where "get (player_key ''Alice'') (snd (move {} identity ''U'' ''Alice'' top_edge_store)) = Some (cell x' y')"
    and "x' = 5 \<and> y' = 0" by auto
  then have "get (player_key ''Alice'') (snd (move {} identity ''U'' ''Alice'' top_edge_store)) = Some (cell 5 0)"
    by simp
  with a b c show ?thesis by blast
qed

text \<open>
  C9. A move by \<open>name\<close>, in any store, in any direction and whatever commands fail, leaves
  the name registry as it was, and for every other player the position record and the
  score. What it can change is the record and the score of \<open>name\<close> and the coin field.
\<close>

theorem move_frame:
  "usednames (snd (move flt permutation direction name s)) = usednames s \<and>
   (\<forall>other. other \<noteq> name \<longrightarrow>
      get (player_key other) (snd (move flt permutation direction name s)) = get (player_key other) s \<and>
      zscore other (snd (move flt permutation direction name s)) = zscore other s)"
proof (intro conjI allI impI)
  show "usednames (snd (move flt permutation direction name s)) = usednames s"
    by (rule move_usednames)
next
  fix other assume "other \<noteq> name"
  then have "player_key other \<noteq> player_key name" using player_key_inj by blast
  then show "get (player_key other) (snd (move flt permutation direction name s)) = get (player_key other) s"
    by (simp add: get_move split: option.splits)
next
  fix other assume "other \<noteq> name"
  then show "zscore other (snd (move flt permutation direction name s)) = zscore other s"
    by (rule zscore_move_other)
qed

theorem move_frame_witness:
  "''Bob'' \<noteq> ''Alice''
   \<and> usednames (snd (move {} identity ''D'' ''Alice'' top_edge_store)) = usednames top_edge_store
   \<and> get (player_key ''Bob'') (snd (move {} identity ''D'' ''Alice'' top_edge_store))
       = get (player_key ''Bob'') top_edge_store
   \<and> zscore ''Bob'' (snd (move {} identity ''D'' ''Alice'' top_edge_store)) = zscore ''Bob'' top_edge_store"
  using move_frame [of "{}" identity "''D''" "''Alice''" top_edge_store] by simp


text \<open>
  When \<^verbatim>\<open>GET\<close> finds no record it replies \<^verbatim>\<open>null\<close>, and \<^verbatim>\<open>res.split(',')\<close> throws inside
  the callback before any command is sent.
\<close>

lemma move_unknown_player:
  assumes "delta_of direction = Some delta" and "GET \<notin> flt" and "get (player_key name) s = None"
  shows "move flt permutation direction name s = (TypeError, s)"
  using assms by (simp add: move_def)


text \<open>
  C8. The claim is that a move for a name without a position record fails silently.
  The source throws instead: Carol has no record in the example store, and her move Up
  ends in the exception of \<^verbatim>\<open>res.split\<close> on \<^verbatim>\<open>null\<close>; the store is as before.
\<close>

theorem move_unknown_player_throws:
  "move {} identity ''U'' ''Carol'' top_edge_store = (TypeError, top_edge_store)"
  by (simp add: move_def delta_of_def get_def player_key_def top_edge_store_def)


section \<open>Admission\<close>

lemma update_absent: "k \<notin> fst ` set al \<Longrightarrow> AList.update k v al = al @ [(k, v)]"
  by (induction al) auto

lemma addPlayer_rejects:
  "length name = 0 \<or> MAX_PLAYER_NAME_LENGTH < length name \<or> name \<in> usednames s \<Longrightarrow>
   addPlayer flt randomPoint name s = (if SISMEMBER \<in> flt then Failed else NameWorks False, s)"
  by (auto simp: addPlayer_def sismember_def Let_def)

lemma addPlayer_admits:
  assumes "0 < length name" and "length name \<le> MAX_PLAYER_NAME_LENGTH" and "name \<notin> usednames s"
    and "SISMEMBER \<notin> flt" and "EXEC \<notin> flt"
  shows "addPlayer flt randomPoint name s =
     (NameWorks (name \<notin> fst ` set (scores s)),
      s\<lparr>usednames := insert name (usednames s),
        strings := AList.update (player_key name) (point_string (randomPoint WIDTH HEIGHT)) (strings s),
        scores := AList.update name 0 (scores s)\<rparr>)"
  using assms
  by (simp add: addPlayer_def sismember_def Let_def sadd_def set_string_def zadd_def js_and_def)

lemma addPlayer_cases:
  assumes "consistent s"
  shows "(fst (addPlayer flt randomPoint name s) = NameWorks True \<and> name \<notin> usednames s \<and>
          snd (addPlayer flt randomPoint name s) =
            s\<lparr>usednames := insert name (usednames s),
              strings := strings s @ [(player_key name, point_string (randomPoint WIDTH HEIGHT))],
              scores := scores s @ [(name, 0)]\<rparr>)
       \<or> (fst (addPlayer flt randomPoint name s) \<noteq> NameWorks True \<and>
          snd (addPlayer flt randomPoint name s) = s)"
proof (cases "length name = 0 \<or> MAX_PLAYER_NAME_LENGTH < length name \<or> name \<in> usednames s")
  case True
  then show ?thesis by (simp add: addPlayer_rejects)
next
  case False
  show ?thesis
  proof (cases "SISMEMBER \<in> flt \<or> EXEC \<in> flt")
    case True
    then show ?thesis using False by (auto simp: addPlayer_def sismember_def Let_def)
  next
    case nf: False
    have a: "name \<notin> fst ` set (scores s)" using assms False by (simp add: consistent_def)
    have "player_key name \<notin> player_key ` usednames s" using False player_key_inj by blast
    then have b: "player_key name \<notin> fst ` set (strings s)" using assms by (simp add: consistent_def)
    have "addPlayer flt randomPoint name s =
     (NameWorks (name \<notin> fst ` set (scores s)),
      s\<lparr>usednames := insert name (usednames s),
        strings := AList.update (player_key name) (point_string (randomPoint WIDTH HEIGHT)) (strings s),
        scores := AList.update name 0 (scores s)\<rparr>)"
      using False nf by (intro addPlayer_admits) auto
    then show ?thesis using a b False by (simp add: update_absent)
  qed
qed

lemma addPlayer_others:
  assumes "other \<noteq> name"
  shows "get (player_key other) (snd (addPlayer flt randomPoint name s)) = get (player_key other) s"
    and "zscore other (snd (addPlayer flt randomPoint name s)) = zscore other s"
proof -
  have "player_key other \<noteq> player_key name" using assms player_key_inj by blast
  then show "get (player_key other) (snd (addPlayer flt randomPoint name s)) = get (player_key other) s"
    by (simp add: addPlayer_def sismember_def Let_def sadd_def set_string_def zadd_def get_def update_conv')
  show "zscore other (snd (addPlayer flt randomPoint name s)) = zscore other s"
    using assms
    by (simp add: addPlayer_def sismember_def Let_def sadd_def set_string_def zadd_def zscore_def update_conv')
qed

lemma addPlayer_coins: "coins (snd (addPlayer flt randomPoint name s)) = coins s"
  by (simp add: addPlayer_def sismember_def Let_def sadd_def set_string_def zadd_def)


subsection \<open>Histories keep the registry and the consistency of the store\<close>

lemma addPlayer_usednames: "usednames s \<subseteq> usednames (snd (addPlayer flt randomPoint name s))"
  by (auto simp: addPlayer_def sismember_def Let_def sadd_def set_string_def zadd_def)

lemma perform_usednames: "usednames s \<subseteq> usednames (perform c s)"
proof (cases c)
  case (Pair flt k)
  then show ?thesis
    by (cases k) (simp_all add: addPlayer_usednames placeCoins_frame move_usednames)
qed

lemma run_usednames: "usednames s \<subseteq> usednames (run history s)"
  unfolding run_def
proof (induction history arbitrary: s)
  case Nil
  then show ?case by simp
next
  case (Cons c history)
  have "usednames s \<subseteq> usednames (perform c s)" by (rule perform_usednames)
  also have "\<dots> \<subseteq> usednames (fold perform history (perform c s))" by (rule Cons.IH)
  finally show ?case by simp
qed

lemma consistent_addPlayer:
  assumes "consistent s"
  shows "consistent (snd (addPlayer flt randomPoint name s))"
  using addPlayer_cases [OF assms, of flt randomPoint name]
proof (elim disjE conjE)
  assume e: "snd (addPlayer flt randomPoint name s) =
            s\<lparr>usednames := insert name (usednames s),
              strings := strings s @ [(player_key name, point_string (randomPoint WIDTH HEIGHT))],
              scores := scores s @ [(name, 0)]\<rparr>"
  show ?thesis unfolding e using assms by (simp add: consistent_def)
next
  assume "snd (addPlayer flt randomPoint name s) = s"
  then show ?thesis using assms by simp
qed

lemma consistent_placeCoins: "consistent s \<Longrightarrow> consistent (placeCoins flt permutation s)"
  by (simp add: consistent_def placeCoins_frame)

lemma zincrby_scores_keys:
  "name \<in> fst ` set (scores s) \<Longrightarrow> fst ` set (scores (zincrby i name s)) = fst ` set (scores s)"
  by (auto simp: zincrby_def dom_update split: num.splits)

lemma pickup_scores_keys:
  "name \<in> fst ` set (scores s) \<Longrightarrow> fst ` set (scores (pickup name c s)) = fst ` set (scores s)"
  by (simp add: pickup_def Let_def set_string_def hdel_def zincrby_scores_keys split: option.splits)

lemma consistent_pickup:
  assumes "consistent s" and "get (player_key name) s = Some res"
  shows "consistent (pickup name c s)"
proof -
  have k: "player_key name \<in> fst ` set (strings s)"
    using assms(2) by (metis get_def map_of_eq_None_iff option.distinct(1))
  then have "player_key name \<in> player_key ` usednames s" using assms(1) by (simp add: consistent_def)
  then have "name \<in> usednames s" using player_key_inj by blast
  then have n: "name \<in> fst ` set (scores s)" using assms(1) by (simp add: consistent_def)
  have "fst ` set (strings (pickup name c s)) = fst ` set (strings s)"
    using k by (auto simp: pickup_strings dom_update)
  then show ?thesis using assms(1) pickup_scores_keys [OF n] by (simp add: consistent_def pickup_usednames)
qed

lemma consistent_move: "consistent s \<Longrightarrow> consistent (snd (move flt permutation direction name s))"
  by (auto simp: move_def Let_def consistent_placeCoins consistent_pickup split: option.splits)

lemma consistent_perform: "consistent s \<Longrightarrow> consistent (perform c s)"
proof (cases c)
  case (Pair flt k)
  assume "consistent s"
  then show ?thesis using Pair
    by (cases k) (simp_all add: consistent_addPlayer consistent_placeCoins consistent_move)
qed

lemma consistent_run: "consistent s \<Longrightarrow> consistent (run history s)"
  unfolding run_def by (induction history arbitrary: s) (simp_all add: consistent_perform)

lemma consistent_empty_store: "consistent empty_store"
  by (simp add: consistent_def empty_store_def)


lemma consistent_top_edge_store: "consistent top_edge_store"
  by (simp add: consistent_def top_edge_store_def player_key_def)


text \<open>
  The flag of the source is the admission bit of the specification's outcome: in a
  consistent store, with the commands answered, \<^verbatim>\<open>addPlayer\<close> answers \<^verbatim>\<open>true\<close> exactly
  when the outcome is \<open>Admitted\<close>, and \<^verbatim>\<open>false\<close> for both reasons of rejection.
\<close>

lemma addPlayer_refines:
  assumes "consistent s"
  shows "fst (addPlayer {} randomPoint name s) = NameWorks (addPlayer_spec name s = Admitted)"
proof (cases "length name = 0 \<or> MAX_PLAYER_NAME_LENGTH < length name \<or> name \<in> usednames s")
  case True
  then have "addPlayer_spec name s \<noteq> Admitted"
    by (auto simp: addPlayer_spec_def MAX_PLAYER_NAME_LENGTH_def)
  then show ?thesis using addPlayer_rejects [OF True, of "{}" randomPoint] by simp
next
  case False
  then have a: "addPlayer_spec name s = Admitted"
    by (auto simp: addPlayer_spec_def MAX_PLAYER_NAME_LENGTH_def)
  have "name \<notin> fst ` set (scores s)" using assms False by (simp add: consistent_def)
  moreover have "addPlayer {} randomPoint name s =
     (NameWorks (name \<notin> fst ` set (scores s)),
      s\<lparr>usednames := insert name (usednames s),
        strings := AList.update (player_key name) (point_string (randomPoint WIDTH HEIGHT)) (strings s),
        scores := AList.update name 0 (scores s)\<rparr>)"
    using False by (intro addPlayer_admits) auto
  ultimately show ?thesis using a by simp
qed

text \<open>
  C6. A name that is empty or longer than 32 characters is never admitted, in any store:
  the call answers \<^verbatim>\<open>callback(null, false)\<close> and the store is as before.
  \<^verbatim>\<open>false\<close> is the one rejection value of the source; the outcome that the
  specification gives to such a name is \<open>Rejected InvalidName\<close>. The name is looked at in
  the callback of \<^verbatim>\<open>SISMEMBER\<close>; when that command fails the call answers with the
  error, again without a write.
\<close>

theorem addPlayer_invalid_name:
  assumes "length name = 0 \<or> 32 < length name"
  shows "addPlayer flt randomPoint name s = (if SISMEMBER \<in> flt then Failed else NameWorks False, s)
       \<and> addPlayer_spec name s = Rejected InvalidName"
proof
  have "length name = 0 \<or> MAX_PLAYER_NAME_LENGTH < length name \<or> name \<in> usednames s"
    using assms by (auto simp: MAX_PLAYER_NAME_LENGTH_def)
  then show "addPlayer flt randomPoint name s = (if SISMEMBER \<in> flt then Failed else NameWorks False, s)"
    by (rule addPlayer_rejects)
  show "addPlayer_spec name s = Rejected InvalidName"
    using assms by (auto simp: addPlayer_spec_def)
qed

theorem addPlayer_invalid_name_witness:
  "(length '''' = 0 \<or> 32 < length '''')
   \<and> addPlayer {} corner '''' top_edge_store = (NameWorks False, top_edge_store)
   \<and> (length (replicate 33 (CHR ''a'')) = 0 \<or> 32 < length (replicate 33 (CHR ''a'')))
   \<and> addPlayer {} corner (replicate 33 (CHR ''a'')) empty_store = (NameWorks False, empty_store)"
proof -
  have a: "length '''' = 0 \<or> 32 < length ''''" by simp
  have b: "length (replicate 33 (CHR ''a'')) = 0 \<or> 32 < length (replicate 33 (CHR ''a''))" by simp
  from addPlayer_invalid_name [OF a, of "{}" corner top_edge_store]
  have c: "addPlayer {} corner '''' top_edge_store = (NameWorks False, top_edge_store)" by simp
  from addPlayer_invalid_name [OF b, of "{}" corner empty_store]
  have d: "addPlayer {} corner (replicate 33 (CHR ''a'')) empty_store = (NameWorks False, empty_store)"
    by simp
  show ?thesis by (intro conjI a b c d)
qed

text \<open>
  C1. Take a consistent store (every store that a history of calls makes from the empty
  one is consistent, \<open>consistent_run\<close>) and a name of 1 to 32 characters that is not in
  the registry. A call whose commands are answered admits the name:
  \<^verbatim>\<open>callback(null, true)\<close>. After any history of further calls, whatever commands fail
  in them, another call with the same name is rejected with \<^verbatim>\<open>callback(null, false)\<close>,
  the one rejection value of the source, where the outcome of the specification is
  \<open>Rejected NameTaken\<close>; its store is exactly the store it found, since the batch of
  writes is never sent.
\<close>

theorem addPlayer_first_then_taken:
  assumes "consistent s" and "1 \<le> length name" and "length name \<le> 32" and "name \<notin> usednames s"
  shows "fst (addPlayer {} randomPoint name s) = NameWorks True
       \<and> addPlayer_spec name s = Admitted
       \<and> (\<forall>history flt randomPoint'.
            addPlayer flt randomPoint' name (run history (snd (addPlayer {} randomPoint name s)))
              = (if SISMEMBER \<in> flt then Failed else NameWorks False,
                 run history (snd (addPlayer {} randomPoint name s)))
            \<and> addPlayer_spec name (run history (snd (addPlayer {} randomPoint name s)))
              = Rejected NameTaken)"
proof (intro conjI allI)
  have v: "\<not> (length name = 0 \<or> MAX_PLAYER_NAME_LENGTH < length name \<or> name \<in> usednames s)"
    using assms(2-4) by (auto simp: MAX_PLAYER_NAME_LENGTH_def)
  have a: "addPlayer {} randomPoint name s =
     (NameWorks (name \<notin> fst ` set (scores s)),
      s\<lparr>usednames := insert name (usednames s),
        strings := AList.update (player_key name) (point_string (randomPoint WIDTH HEIGHT)) (strings s),
        scores := AList.update name 0 (scores s)\<rparr>)"
    using v by (intro addPlayer_admits) auto
  have "name \<notin> fst ` set (scores s)" using assms(1,4) by (simp add: consistent_def)
  then show "fst (addPlayer {} randomPoint name s) = NameWorks True" using a by simp
  show "addPlayer_spec name s = Admitted"
    using assms(2-4) by (auto simp: addPlayer_spec_def)
  fix history flt randomPoint'
  have "name \<in> usednames (snd (addPlayer {} randomPoint name s))" using a by simp
  then have u: "name \<in> usednames (run history (snd (addPlayer {} randomPoint name s)))"
    using run_usednames by blast
  then show "addPlayer flt randomPoint' name (run history (snd (addPlayer {} randomPoint name s)))
              = (if SISMEMBER \<in> flt then Failed else NameWorks False,
                 run history (snd (addPlayer {} randomPoint name s)))"
    by (intro addPlayer_rejects) simp
  show "addPlayer_spec name (run history (snd (addPlayer {} randomPoint name s))) = Rejected NameTaken"
    using u assms(2,3) by (auto simp: addPlayer_spec_def)
qed

theorem addPlayer_first_then_taken_witness:
  "consistent empty_store \<and> 1 \<le> length ''Alice'' \<and> length ''Alice'' \<le> 32
   \<and> ''Alice'' \<notin> usednames empty_store
   \<and> fst (addPlayer {} corner ''Alice'' empty_store) = NameWorks True
   \<and> addPlayer {} corner ''Alice'' (snd (addPlayer {} corner ''Alice'' empty_store))
       = (NameWorks False, snd (addPlayer {} corner ''Alice'' empty_store))"
proof -
  have h: "consistent empty_store" "1 \<le> length ''Alice''" "length ''Alice'' \<le> 32"
    "''Alice'' \<notin> usednames empty_store"
    by (simp_all add: consistent_empty_store) (simp add: empty_store_def)
  note t = addPlayer_first_then_taken [OF h, of corner]
  note a = t [THEN conjunct1]
  from t have "addPlayer {} corner ''Alice'' (run [] (snd (addPlayer {} corner ''Alice'' empty_store)))
              = (if SISMEMBER \<in> {} then Failed else NameWorks False,
                 run [] (snd (addPlayer {} corner ''Alice'' empty_store)))" by blast
  then have b: "addPlayer {} corner ''Alice'' (snd (addPlayer {} corner ''Alice'' empty_store))
       = (NameWorks False, snd (addPlayer {} corner ''Alice'' empty_store))"
    by (simp add: run_def)
  show ?thesis by (intro conjI h a b)
qed

text \<open>
  C10. A call of \<^verbatim>\<open>addPlayer\<close>, admitted or not and whatever commands fail, leaves the
  coin field as it was, and for every other name the position record and the score. In a
  consistent store it either answers \<^verbatim>\<open>true\<close>, and then the name was in none of the
  three collections and each of them gains exactly one entry for it at its end (the
  registry the name, the strings the record of the random point, the score board the
  score 0), or it answers anything else and the store is as before.
\<close>

theorem addPlayer_frame:
  "coins (snd (addPlayer flt randomPoint name s)) = coins s
   \<and> (\<forall>other. other \<noteq> name \<longrightarrow>
        get (player_key other) (snd (addPlayer flt randomPoint name s)) = get (player_key other) s \<and>
        zscore other (snd (addPlayer flt randomPoint name s)) = zscore other s)
   \<and> (consistent s \<longrightarrow>
        (fst (addPlayer flt randomPoint name s) = NameWorks True \<and>
         name \<notin> usednames s \<and> player_key name \<notin> fst ` set (strings s) \<and> name \<notin> fst ` set (scores s) \<and>
         usednames (snd (addPlayer flt randomPoint name s)) = insert name (usednames s) \<and>
         strings (snd (addPlayer flt randomPoint name s))
           = strings s @ [(player_key name, point_string (randomPoint WIDTH HEIGHT))] \<and>
         scores (snd (addPlayer flt randomPoint name s)) = scores s @ [(name, 0)])
      \<or> (fst (addPlayer flt randomPoint name s) \<noteq> NameWorks True \<and>
         snd (addPlayer flt randomPoint name s) = s))"
proof (intro conjI allI impI)
  show "coins (snd (addPlayer flt randomPoint name s)) = coins s" by (rule addPlayer_coins)
next
  fix other assume "other \<noteq> name"
  then show "get (player_key other) (snd (addPlayer flt randomPoint name s)) = get (player_key other) s"
    by (rule addPlayer_others)
next
  fix other assume "other \<noteq> name"
  then show "zscore other (snd (addPlayer flt randomPoint name s)) = zscore other s"
    by (rule addPlayer_others)
next
  assume c: "consistent s"
  from addPlayer_cases [OF c, of flt randomPoint name]
  show "(fst (addPlayer flt randomPoint name s) = NameWorks True \<and>
         name \<notin> usednames s \<and> player_key name \<notin> fst ` set (strings s) \<and> name \<notin> fst ` set (scores s) \<and>
         usednames (snd (addPlayer flt randomPoint name s)) = insert name (usednames s) \<and>
         strings (snd (addPlayer flt randomPoint name s))
           = strings s @ [(player_key name, point_string (randomPoint WIDTH HEIGHT))] \<and>
         scores (snd (addPlayer flt randomPoint name s)) = scores s @ [(name, 0)])
      \<or> (fst (addPlayer flt randomPoint name s) \<noteq> NameWorks True \<and>
         snd (addPlayer flt randomPoint name s) = s)"
  proof (elim disjE conjE)
    assume r: "fst (addPlayer flt randomPoint name s) = NameWorks True" and n: "name \<notin> usednames s"
      and e: "snd (addPlayer flt randomPoint name s) =
            s\<lparr>usednames := insert name (usednames s),
              strings := strings s @ [(player_key name, point_string (randomPoint WIDTH HEIGHT))],
              scores := scores s @ [(name, 0)]\<rparr>"
    have a: "name \<notin> fst ` set (scores s)" using c n by (simp add: consistent_def)
    have "player_key name \<notin> player_key ` usednames s" using n player_key_inj by blast
    then have b: "player_key name \<notin> fst ` set (strings s)" using c by (simp add: consistent_def)
    show ?thesis using r n a b by (simp add: e)
  next
    assume "fst (addPlayer flt randomPoint name s) \<noteq> NameWorks True"
      and "snd (addPlayer flt randomPoint name s) = s"
    then show ?thesis by simp
  qed
qed

theorem addPlayer_frame_witness:
  "''Bob'' \<noteq> ''Carol'' \<and> consistent top_edge_store
   \<and> coins (snd (addPlayer {} corner ''Carol'' top_edge_store)) = coins top_edge_store
   \<and> get (player_key ''Bob'') (snd (addPlayer {} corner ''Carol'' top_edge_store))
       = get (player_key ''Bob'') top_edge_store
   \<and> zscore ''Bob'' (snd (addPlayer {} corner ''Carol'' top_edge_store)) = zscore ''Bob'' top_edge_store
   \<and> fst (addPlayer {} corner ''Carol'' top_edge_store) = NameWorks True
   \<and> usednames (snd (addPlayer {} corner ''Carol'' top_edge_store))
       = insert ''Carol'' (usednames top_edge_store)
   \<and> strings (snd (addPlayer {} corner ''Carol'' top_edge_store))
       = strings top_edge_store @ [(player_key ''Carol'', point_string (corner WIDTH HEIGHT))]
   \<and> scores (snd (addPlayer {} corner ''Carol'' top_edge_store)) = scores top_edge_store @ [(''Carol'', 0)]"
proof -
  have n: "''Bob'' \<noteq> ''Carol''" by simp
  have r: "fst (addPlayer {} corner ''Carol'' top_edge_store) = NameWorks True"
    by (simp add: addPlayer_def sismember_def Let_def sadd_def set_string_def zadd_def js_and_def
        top_edge_store_def MAX_PLAYER_NAME_LENGTH_def)
  note t = addPlayer_frame [of "{}" corner "''Carol''" top_edge_store]
  note t1 = t [THEN conjunct1]
  note t2 = t [THEN conjunct2, THEN conjunct1, THEN spec, THEN mp, OF n]
  note t3 = t [THEN conjunct2, THEN conjunct2, THEN mp, OF consistent_top_edge_store]
  from t3 r have t4: "usednames (snd (addPlayer {} corner ''Carol'' top_edge_store))
       = insert ''Carol'' (usednames top_edge_store)
   \<and> strings (snd (addPlayer {} corner ''Carol'' top_edge_store))
       = strings top_edge_store @ [(player_key ''Carol'', point_string (corner WIDTH HEIGHT))]
   \<and> scores (snd (addPlayer {} corner ''Carol'' top_edge_store)) = scores top_edge_store @ [(''Carol'', 0)]"
    by simp
  show ?thesis
    by (intro conjI n consistent_top_edge_store t1 t2 [THEN conjunct1] t2 [THEN conjunct2] r
        t4 [THEN conjunct1] t4 [THEN conjunct2, THEN conjunct1] t4 [THEN conjunct2, THEN conjunct2])
qed


section \<open>The snapshot\<close>

lemma state_is_null: "state flt s = None"
  by (simp add: state_def)


text \<open>
  The version of \<^verbatim>\<open>src/unnamed/part_000\<close> does hand a snapshot to its callback when the
  store has a player: the ranking is the score board from the highest to the lowest
  score. Without a player its \<^verbatim>\<open>MGET\<close> has no key and the callback gets the error.
\<close>

lemma pairs_members_scores:
  "pairs (concat (map (\<lambda>(member, score). [member, f score]) xs))
     = map (\<lambda>(member, score). (member, Some (f score))) xs"
  by (induction xs) (auto split: prod.splits)

lemma sorted_by_score:
  "sorted (map (\<lambda>(member, score). (score, member)) xs) \<Longrightarrow> sorted (map snd xs)"
proof (induction xs)
  case Nil
  then show ?case by simp
next
  case (Cons e xs)
  obtain m sc where e: "e = (m, sc)" by (cases e)
  have "\<forall>x\<in>set xs. sc \<le> snd x"
  proof
    fix x assume x: "x \<in> set xs"
    obtain m' sc' where x': "x = (m', sc')" by (cases x)
    have "(sc, m) \<le> (sc', m')" using Cons.prems x e x' by force
    then show "sc \<le> snd x" by (auto simp: x' less_eq_prod_def)
  qed
  then show ?case using Cons e by simp
qed

lemma zrevrange_descending:
  "sorted (rev (map snd (rev (sort_key (\<lambda>(member, score). (score, member)) (scores s)))))"
proof -
  have "sorted (map (\<lambda>(member, score). (score, member))
          (sort_key (\<lambda>(member, score). (score, member)) (scores s)))"
    by (rule sorted_sort_key)
  then have "sorted (map snd (sort_key (\<lambda>(member, score). (score, member)) (scores s)))"
    by (rule sorted_by_score)
  then show ?thesis by (simp add: rev_map)
qed

lemma state_part_000_snapshot:
  assumes "keys ''player:'' s \<noteq> []"
  shows "\<exists>snap. state_part_000 {} s = StateOk snap
           \<and> ranking snap = map (\<lambda>(member, score). (member, Some (numToString (Num score))))
                 (rev (sort_key (\<lambda>(member, score). (score, member)) (scores s)))
           \<and> field snap = hgetall s"
  using assms
  by (simp add: state_part_000_def Let_def zrevrange_withscores_def pairs_members_scores)

lemma state_part_000_no_player: "state_part_000 {} empty_store = StateFailed"
  by (simp add: state_part_000_def Let_def keys_def empty_store_def)


text \<open>
  C7. The claim is that every call of \<^verbatim>\<open>state\<close> returns a snapshot with the scores in
  descending order, which is also what the comment above the function announces. In
  \<^verbatim>\<open>src/server/game.js\<close> the call returns \<^verbatim>\<open>null\<close>, here with two players in the store.
\<close>

theorem state_returns_null: "state {} top_edge_store = None"
  by (simp add: state_def)

section \<open>The coin field\<close>

text \<open>
  On a cleared field every \<^verbatim>\<open>HSETNX\<close> of the batch finds its cell free, because distinct
  indices print as distinct cells; the field is then the batch, in the order of the ranks.
\<close>

lemma hsetnx_coins_absent:
  "k \<notin> fst ` set (coins s) \<Longrightarrow> coins (hsetnx k v s) = coins s @ [(k, v)]"
  by (simp add: hsetnx_def)

lemma foldl_hsetnx_coins:
  "distinct (map fst xs) \<Longrightarrow> fst ` set xs \<inter> fst ` set (coins s) = {} \<Longrightarrow>
   coins (foldl (\<lambda>t (i, v). hsetnx i v t) s xs) = coins s @ xs"
proof (induction xs arbitrary: s)
  case Nil
  then show ?case by simp
next
  case (Cons e xs)
  obtain k v where e: "e = (k, v)" by (cases e)
  have k: "k \<notin> fst ` set (coins s)" using Cons.prems(2) e by auto
  have c: "coins (hsetnx k v s) = coins s @ [(k, v)]" using k by (rule hsetnx_coins_absent)
  have d: "distinct (map fst xs)" and kx: "k \<notin> fst ` set xs" using Cons.prems(1) e by auto
  have "fst ` set xs \<inter> fst ` set (coins (hsetnx k v s)) = {}"
    using Cons.prems(2) kx by (auto simp: c)
  from Cons.IH [OF d this] show ?case by (simp add: e c)
qed

lemma coinIndex_cell: "coinIndex p = cell (p div WIDTH) (p mod WIDTH)"
  by (simp add: coinIndex_def cell_def)

lemma coinIndex_inj: "coinIndex p = coinIndex q \<Longrightarrow> p = q"
proof -
  assume "coinIndex p = coinIndex q"
  then have "p div WIDTH = q div WIDTH \<and> p mod WIDTH = q mod WIDTH"
    unfolding coinIndex_cell by (rule cell_inj)
  then show "p = q" by (metis div_mult_mod_eq)
qed

lemma coinBatch_length: "length (coinBatch ps) = length ps"
  by (simp add: coinBatch_def)

lemma coinBatch_nth:
  "i < length ps \<Longrightarrow> coinBatch ps ! i = (coinIndex (ps ! i), show_nat (coinValue i))"
  by (simp add: coinBatch_def nth_enumerate_eq)

lemma coinBatch_keys: "map fst (coinBatch ps) = map coinIndex ps"
  by (rule nth_equalityI) (simp_all add: coinBatch_length coinBatch_nth)

lemma coinBatch_values: "map snd (coinBatch ps) = map (\<lambda>i. show_nat (coinValue i)) [0..<length ps]"
  by (rule nth_equalityI) (simp_all add: coinBatch_length coinBatch_nth)

lemma coinBatch_distinct: "distinct ps \<Longrightarrow> distinct (map fst (coinBatch ps))"
  unfolding coinBatch_keys by (simp add: distinct_map inj_on_def coinIndex_inj)

lemma placeCoins_coins:
  assumes "distinct (take NUM_COINS (permutation (WIDTH * HEIGHT)))"
  shows "coins (placeCoins {} permutation s) = coinBatch (take NUM_COINS (permutation (WIDTH * HEIGHT)))"
proof -
  have "coins (foldl (\<lambda>t (i, v). hsetnx i v t) (del_coins s)
          (coinBatch (take NUM_COINS (permutation (WIDTH * HEIGHT)))))
        = coins (del_coins s) @ coinBatch (take NUM_COINS (permutation (WIDTH * HEIGHT)))"
    by (rule foldl_hsetnx_coins) (simp_all add: coinBatch_distinct assms del_coins_def)
  then show ?thesis by (simp add: placeCoins_def Let_def del_coins_def)
qed

lemma each_index_once_length: "each_index_once permutation n \<Longrightarrow> length (permutation n) = n"
  by (metis each_index_once_def distinct_card card_atLeastLessThan diff_zero)

lemma value_strings:
  "show_nat 1 = ''1''" "show_nat 2 = ''2''" "show_nat 5 = ''5''" "show_nat 10 = ''10''"
  by (simp_all add: show_nat_digit show_nat_step digit_char_def)

lemma value_counts:
  "length (filter (\<lambda>v. v = ''1'') (map (\<lambda>i. show_nat (coinValue i)) [0..<100])) = 50"
  "length (filter (\<lambda>v. v = ''2'') (map (\<lambda>i. show_nat (coinValue i)) [0..<100])) = 25"
  "length (filter (\<lambda>v. v = ''5'') (map (\<lambda>i. show_nat (coinValue i)) [0..<100])) = 20"
  "length (filter (\<lambda>v. v = ''10'') (map (\<lambda>i. show_nat (coinValue i)) [0..<100])) = 5"
  by code_simp+

lemma count_by_value:
  "length (filter (\<lambda>e. snd e = v) xs) = length (filter (\<lambda>w. w = v) (map snd xs))"
  by (induction xs) simp_all

lemma each_index_once_identity: "each_index_once identity n"
  by (simp add: each_index_once_def identity_def)

lemma coinIndex_99: "coinIndex 99 = ''1,35''"
  by (simp add: coinIndex_def coords_def WIDTH_def show_nat_digit show_nat_step digit_char_def)


lemma placeCoins_hundred:
  assumes "each_index_once permutation (WIDTH * HEIGHT)"
  shows "length (coins (placeCoins {} permutation s)) = 100"
proof -
  have "length (permutation (WIDTH * HEIGHT)) = WIDTH * HEIGHT"
    using assms by (rule each_index_once_length)
  then have l: "length (take NUM_COINS (permutation (WIDTH * HEIGHT))) = 100"
    by (simp add: NUM_COINS_def WIDTH_def HEIGHT_def)
  have "distinct (take NUM_COINS (permutation (WIDTH * HEIGHT)))"
    using assms by (simp add: each_index_once_def)
  then have "coins (placeCoins {} permutation s) = coinBatch (take NUM_COINS (permutation (WIDTH * HEIGHT)))"
    by (rule placeCoins_coins)
  then show ?thesis by (simp only: coinBatch_length l)
qed

text \<open>
  C3. When \<^verbatim>\<open>permutation\<close> answers with each index of the 4096 cells once and both
  commands of \<^verbatim>\<open>placeCoins\<close> are answered, the field afterwards holds exactly 100 coins,
  on pairwise distinct cells, whatever the store was before. The coin of rank \<open>i\<close> lies on
  the grid cell (\<open>p div 64\<close>, \<open>p mod 64\<close>) of the \<open>i\<close>-th index \<open>p\<close> of the permutation and
  has the value 1 for the ranks 0 to 49, 2 for 50 to 74, 5 for 75 to 94 and 10 for 95 to
  99: 50, 25, 20 and 5 coins of the four values.
\<close>

theorem placeCoins_field:
  assumes "each_index_once permutation (WIDTH * HEIGHT)"
  shows "length (coins (placeCoins {} permutation s)) = 100
       \<and> distinct (map fst (coins (placeCoins {} permutation s)))
       \<and> (\<forall>i<100. \<exists>x<WIDTH. \<exists>y<HEIGHT.
            x = permutation (WIDTH * HEIGHT) ! i div WIDTH \<and> y = permutation (WIDTH * HEIGHT) ! i mod WIDTH \<and>
            coins (placeCoins {} permutation s) ! i =
              (cell x y, if i < 50 then ''1'' else if i < 75 then ''2'' else if i < 95 then ''5'' else ''10''))
       \<and> length (filter (\<lambda>e. snd e = ''1'') (coins (placeCoins {} permutation s))) = 50
       \<and> length (filter (\<lambda>e. snd e = ''2'') (coins (placeCoins {} permutation s))) = 25
       \<and> length (filter (\<lambda>e. snd e = ''5'') (coins (placeCoins {} permutation s))) = 20
       \<and> length (filter (\<lambda>e. snd e = ''10'') (coins (placeCoins {} permutation s))) = 5"
proof -
  let ?perm = "permutation (WIDTH * HEIGHT)"
  let ?ps = "take NUM_COINS ?perm"
  have len: "length ?perm = WIDTH * HEIGHT" using assms by (rule each_index_once_length)
  have dist: "distinct ?ps" using assms by (simp add: each_index_once_def)
  have lps: "length ?ps = 100" using len by (simp add: NUM_COINS_def WIDTH_def HEIGHT_def)
  have field: "coins (placeCoins {} permutation s) = coinBatch ?ps" using dist by (rule placeCoins_coins)
  have a: "length (coinBatch ?ps) = 100" by (simp only: coinBatch_length lps)
  have b: "distinct (map fst (coinBatch ?ps))" using dist by (rule coinBatch_distinct)
  have c: "\<exists>x<WIDTH. \<exists>y<HEIGHT. x = ?perm ! i div WIDTH \<and> y = ?perm ! i mod WIDTH \<and>
            coinBatch ?ps ! i =
              (cell x y, if i < 50 then ''1'' else if i < 75 then ''2'' else if i < 95 then ''5'' else ''10'')"
    if i: "i < 100" for i
  proof -
    have "i < length ?perm" using i len by (simp add: WIDTH_def HEIGHT_def)
    then have "?perm ! i \<in> set ?perm" by (rule nth_mem)
    then have p: "?perm ! i < WIDTH * HEIGHT" using assms by (simp add: each_index_once_def)
    have x: "?perm ! i div WIDTH < WIDTH" using p by (simp add: WIDTH_def HEIGHT_def)
    have y: "?perm ! i mod WIDTH < HEIGHT" by (simp add: WIDTH_def HEIGHT_def)
    have e: "?ps ! i = ?perm ! i" using i by (simp add: NUM_COINS_def)
    have "i < length ?ps" using i by (simp only: lps)
    then have "coinBatch ?ps ! i = (coinIndex (?ps ! i), show_nat (coinValue i))"
      by (rule coinBatch_nth)
    then have "coinBatch ?ps ! i = (cell (?perm ! i div WIDTH) (?perm ! i mod WIDTH), show_nat (coinValue i))"
      by (simp only: e coinIndex_cell)
    moreover have "show_nat (coinValue i) =
        (if i < 50 then ''1'' else if i < 75 then ''2'' else if i < 95 then ''5'' else ''10'')"
      using value_strings by (simp add: coinValue_def)
    ultimately show ?thesis using x y by simp
  qed
  have v: "map snd (coinBatch ?ps) = map (\<lambda>i. show_nat (coinValue i)) [0..<100]"
    by (simp only: coinBatch_values lps)
  have d: "length (filter (\<lambda>e. snd e = ''1'') (coinBatch ?ps)) = 50"
    "length (filter (\<lambda>e. snd e = ''2'') (coinBatch ?ps)) = 25"
    "length (filter (\<lambda>e. snd e = ''5'') (coinBatch ?ps)) = 20"
    "length (filter (\<lambda>e. snd e = ''10'') (coinBatch ?ps)) = 5"
    by (simp_all only: count_by_value v value_counts)
  show ?thesis unfolding field using a b c d by simp
qed

theorem placeCoins_field_witness:
  "each_index_once identity (WIDTH * HEIGHT)
   \<and> length (coins (placeCoins {} identity top_edge_store)) = 100
   \<and> distinct (map fst (coins (placeCoins {} identity top_edge_store)))
   \<and> coins (placeCoins {} identity top_edge_store) ! 99 = (cell 1 35, ''10'')
   \<and> length (filter (\<lambda>e. snd e = ''10'') (coins (placeCoins {} identity top_edge_store))) = 5"
proof -
  note t = placeCoins_field [OF each_index_once_identity, of top_edge_store]
  have "identity (WIDTH * HEIGHT) ! 99 = 99" by (simp add: identity_def WIDTH_def HEIGHT_def)
  moreover have "(99::nat) div WIDTH = 1" "(99::nat) mod WIDTH = 35" by (simp_all add: WIDTH_def)
  moreover from t have "\<exists>x<WIDTH. \<exists>y<HEIGHT.
            x = identity (WIDTH * HEIGHT) ! 99 div WIDTH \<and> y = identity (WIDTH * HEIGHT) ! 99 mod WIDTH \<and>
            coins (placeCoins {} identity top_edge_store) ! 99 =
              (cell x y, if (99::nat) < 50 then ''1'' else if (99::nat) < 75 then ''2''
                         else if (99::nat) < 95 then ''5'' else ''10'')"
    by simp
  ultimately have "coins (placeCoins {} identity top_edge_store) ! 99 = (cell 1 35, ''10'')"
    by auto
  with t each_index_once_identity show ?thesis by simp
qed

section \<open>Pickup and refill\<close>

text \<open>
  The field that \<^verbatim>\<open>placeCoins\<close> lays out does not depend on the store it starts from,
  since it clears the field first.
\<close>

lemma hsetnx_coins_cong: "coins s = coins t \<Longrightarrow> coins (hsetnx k v s) = coins (hsetnx k v t)"
  by (simp add: hsetnx_def)

lemma foldl_hsetnx_coins_cong:
  "coins s = coins t \<Longrightarrow>
   coins (foldl (\<lambda>t (i, v). hsetnx i v t) s xs) = coins (foldl (\<lambda>t (i, v). hsetnx i v t) t xs)"
proof (induction xs arbitrary: s t)
  case Nil
  then show ?case by simp
next
  case (Cons e xs)
  obtain k v where e: "e = (k, v)" by (cases e)
  have "coins (hsetnx k v s) = coins (hsetnx k v t)" using Cons.prems by (rule hsetnx_coins_cong)
  from Cons.IH [OF this] show ?case by (simp add: e)
qed

lemma placeCoins_coins_any: "coins (placeCoins {} permutation s) = coins (placeCoins {} permutation t)"
proof -
  have "coins (foldl (\<lambda>t (i, v). hsetnx i v t) (del_coins s)
          (coinBatch (take NUM_COINS (permutation (WIDTH * HEIGHT)))))
      = coins (foldl (\<lambda>t (i, v). hsetnx i v t) (del_coins t)
          (coinBatch (take NUM_COINS (permutation (WIDTH * HEIGHT)))))"
    by (rule foldl_hsetnx_coins_cong) (simp add: del_coins_def)
  then show ?thesis by (simp add: placeCoins_def Let_def)
qed

lemma pickup_no_coin:
  assumes "hget c s = None"
  shows "scores (pickup name c s) = scores s" and "coins (pickup name c s) = coins s"
  using assms by (simp_all add: pickup_def Let_def set_string_def)

lemma pickup_coin:
  assumes "hget c s = Some (show_nat v)"
  shows "zscore name (pickup name c s) = Some (int v + (case zscore name s of None \<Rightarrow> 0 | Some w \<Rightarrow> w))"
    and "coins (pickup name c s) = AList.delete c (coins s)"
  using assms
  by (simp_all add: pickup_def Let_def set_string_def hdel_def zincrby_def show_nat_not_Nil
      toNumber_show_nat zscore_def update_conv')

lemma move_answered:
  assumes "delta_of direction = Some (Num dx, Num dy)" and "get (player_key name) s = Some (cell x y)"
    and "GET \<notin> flt" and "HGET \<notin> flt" and "HLEN \<notin> flt"
  shows "move flt permutation direction name s =
     (if coins (pickup name (cell (nat (max 0 (min (int WIDTH - 1) (int x + dx))))
                                  (nat (max 0 (min (int HEIGHT - 1) (int y + dy))))) s) = []
      then (Refilled, placeCoins flt permutation
             (pickup name (cell (nat (max 0 (min (int WIDTH - 1) (int x + dx))))
                                (nat (max 0 (min (int HEIGHT - 1) (int y + dy))))) s))
      else (Settled, pickup name (cell (nat (max 0 (min (int WIDTH - 1) (int x + dx))))
                                       (nat (max 0 (min (int HEIGHT - 1) (int y + dy))))) s))"
  using assms by (simp add: move_def Let_def destination_cell hlen_def)

lemma delta_of_Num:
  "delta_of direction = Some (Num dx, Num dy) \<longleftrightarrow>
     direction = ''U'' \<and> dx = 0 \<and> dy = - 1 \<or> direction = ''R'' \<and> dx = 1 \<and> dy = 0 \<or>
     direction = ''D'' \<and> dx = 0 \<and> dy = 1 \<or> direction = ''L'' \<and> dx = - 1 \<and> dy = 0"
  by (auto simp: delta_of_def)

lemma pickup_coins_truthy:
  "hget c s = Some w \<Longrightarrow> w \<noteq> [] \<Longrightarrow> coins (pickup name c s) = AList.delete c (coins s)"
  by (simp add: pickup_def Let_def set_string_def hdel_def zincrby_frame)

lemma cell_numerals:
  "cell 0 0 = ''0,0''" "cell 1 0 = ''1,0''" "cell 5 1 = ''5,1''" "cell 7 6 = ''7,6''" "cell 7 7 = ''7,7''"
  by (simp_all add: cell_eq show_nat_digit digit_char_def)

lemma coinBatch_first:
  "map_of (coinBatch (p # ps)) (coinIndex p) = Some (show_nat (coinValue 0))"
  by (simp add: coinBatch_def)

lemma identity_field:
  "coins (placeCoins {} identity s) = coinBatch (0 # [1..<100])"
proof -
  have "take NUM_COINS (identity (WIDTH * HEIGHT)) = [0..<100]"
    by (simp add: identity_def NUM_COINS_def WIDTH_def HEIGHT_def)
  moreover have "[0..<100] = 0 # [1..<100]" by (simp add: upt_conv_Cons)
  moreover have "distinct (take NUM_COINS (identity (WIDTH * HEIGHT)))"
    by (simp add: identity_def)
  ultimately show ?thesis by (simp only: placeCoins_coins)
qed

lemma identity_field_origin: "hget ''0,0'' (placeCoins {} identity s) = Some ''1''"
proof -
  have "coinIndex 0 = ''0,0''" by (simp add: coinIndex_cell cell_numerals)
  moreover have "show_nat (coinValue 0) = ''1''" using value_strings by (simp add: coinValue_def)
  ultimately show ?thesis
    using coinBatch_first [of 0 "[1..<100]"] by (simp add: hget_def identity_field)
qed

lemma identity_field_length: "length (coins (placeCoins {} identity s)) = 100"
  by (simp add: identity_field coinBatch_length)

text \<open>Alice steps left onto the last coin.\<close>

lemma last_coin_move:
  "move {} identity ''L'' ''Alice'' last_coin_store =
     (Refilled, placeCoins {} identity
        \<lparr>usednames = {''Alice'', ''Bob''},
         strings = [(''player:Alice'', ''0,0''), (''player:Bob'', ''7,7'')],
         scores = [(''Alice'', 1), (''Bob'', 249)],
         coins = []\<rparr>)"
proof -
  have "get (player_key ''Alice'') last_coin_store = Some ''1,0''"
    by (simp add: get_def player_key_def last_coin_store_def)
  then have g: "get (player_key ''Alice'') last_coin_store = Some (cell 1 0)"
    by (simp only: cell_numerals)
  have c: "cell (nat (max 0 (min (int WIDTH - 1) (int 1 + - 1)))) (nat (max 0 (min (int HEIGHT - 1) (int 0 + 0))))
      = ''0,0''"
    by (simp add: cell_numerals)
  have p: "pickup ''Alice'' ''0,0'' last_coin_store =
        \<lparr>usednames = {''Alice'', ''Bob''},
         strings = [(''player:Alice'', ''0,0''), (''player:Bob'', ''7,7'')],
         scores = [(''Alice'', 1), (''Bob'', 249)],
         coins = []\<rparr>"
    by (simp add: pickup_def hget_def last_coin_store_def zincrby_def toNumber_def nat_of_string_def
        digit_val_def zscore_def hdel_def set_string_def player_key_def AList.delete_eq)
  show ?thesis
    using move_answered [OF delta_of_recognized(4) g, of "{}" identity]
    by (simp only: c p) simp
qed

text \<open>Bob steps up on the empty field.\<close>

lemma empty_field_move:
  "move {} identity ''U'' ''Bob'' empty_field_store =
     (Refilled, placeCoins {} identity
        \<lparr>usednames = {''Alice'', ''Bob''},
         strings = [(''player:Alice'', ''0,0''), (''player:Bob'', ''7,6'')],
         scores = [(''Alice'', 1), (''Bob'', 249)],
         coins = []\<rparr>)"
proof -
  have g: "get (player_key ''Bob'') empty_field_store = Some (cell 7 7)"
    by (simp add: get_def player_key_def empty_field_store_def cell_numerals)
  have c: "cell (nat (max 0 (min (int WIDTH - 1) (int 7 + 0)))) (nat (max 0 (min (int HEIGHT - 1) (int 7 + - 1))))
      = ''7,6''"
    by (simp add: cell_numerals WIDTH_def HEIGHT_def)
  have p: "pickup ''Bob'' ''7,6'' empty_field_store =
        \<lparr>usednames = {''Alice'', ''Bob''},
         strings = [(''player:Alice'', ''0,0''), (''player:Bob'', ''7,6'')],
         scores = [(''Alice'', 1), (''Bob'', 249)],
         coins = []\<rparr>"
    by (simp add: pickup_def hget_def empty_field_store_def set_string_def player_key_def)
  show ?thesis
    using move_answered [OF delta_of_recognized(1) g, of "{}" identity]
    by (simp only: c p) simp
qed


text \<open>
  C2, as amended. A player with a score \<open>sc\<close> stands at \<open>(x, y)\<close> and moves in a recognized
  direction (\<open>delta_of\<close> gives integers exactly for U, R, D and L, \<open>delta_of_Num\<close>); every
  command is answered. The position record becomes the clamped destination \<open>c\<close> in every
  case. If \<open>c\<close> holds a coin of value \<open>v\<close>, the score of the player becomes \<open>sc + v\<close> and
  the coin is deleted; when other coins remain the field is the old one without \<open>c\<close>,
  and when none remains the field is the one \<^verbatim>\<open>placeCoins\<close> lays out anew, which may
  again have a coin at \<open>c\<close>. If \<open>c\<close> holds no coin, the score board is unchanged, and the
  field is unchanged unless it was empty, in which case it is laid out anew.
\<close>

theorem move_pickup:
  assumes "delta_of direction = Some (Num dx, Num dy)"
    and "get (player_key name) s = Some (cell x y)"
    and "zscore name s = Some sc"
    and "c = cell (nat (max 0 (min (int WIDTH - 1) (int x + dx)))) (nat (max 0 (min (int HEIGHT - 1) (int y + dy))))"
  shows "get (player_key name) (snd (move {} permutation direction name s)) = Some c
       \<and> (\<forall>v. hget c s = Some (show_nat v) \<longrightarrow>
            zscore name (snd (move {} permutation direction name s)) = Some (sc + int v) \<and>
            coins (snd (move {} permutation direction name s)) =
              (if AList.delete c (coins s) = [] then coins (placeCoins {} permutation s)
               else AList.delete c (coins s)))
       \<and> (hget c s = None \<longrightarrow>
            scores (snd (move {} permutation direction name s)) = scores s \<and>
            coins (snd (move {} permutation direction name s)) =
              (if coins s = [] then coins (placeCoins {} permutation s) else coins s))"
proof (intro conjI allI impI)
  note m = move_answered [OF assms(1,2), of "{}" permutation, folded assms(4)]
  have any: "coins (placeCoins {} permutation (pickup name c s)) = coins (placeCoins {} permutation s)"
    by (rule placeCoins_coins_any)
  show "get (player_key name) (snd (move {} permutation direction name s)) = Some c"
    using m by (simp add: get_placeCoins get_pickup)
  {
    fix v assume h: "hget c s = Some (show_nat v)"
    show "zscore name (snd (move {} permutation direction name s)) = Some (sc + int v)"
      using m pickup_coin(1) [OF h, of name] assms(3) by (simp add: zscore_placeCoins)
    show "coins (snd (move {} permutation direction name s)) =
              (if AList.delete c (coins s) = [] then coins (placeCoins {} permutation s)
               else AList.delete c (coins s))"
      using m pickup_coin(2) [OF h, of name] any by simp
  }
  {
    assume h: "hget c s = None"
    show "scores (snd (move {} permutation direction name s)) = scores s"
      using m pickup_no_coin(1) [OF h, of name] by (simp add: placeCoins_frame)
    show "coins (snd (move {} permutation direction name s)) =
              (if coins s = [] then coins (placeCoins {} permutation s) else coins s)"
      using m pickup_no_coin(2) [OF h, of name] any by simp
  }
qed

theorem move_pickup_witness:
  "delta_of ''D'' = Some (Num 0, Num 1)
   \<and> get (player_key ''Alice'') top_edge_store = Some (cell 5 0)
   \<and> zscore ''Alice'' top_edge_store = Some 0
   \<and> cell 5 1 = cell (nat (max 0 (min (int WIDTH - 1) (int 5 + 0)))) (nat (max 0 (min (int HEIGHT - 1) (int 0 + 1))))
   \<and> hget (cell 5 1) top_edge_store = Some (show_nat 2)
   \<and> get (player_key ''Alice'') (snd (move {} identity ''D'' ''Alice'' top_edge_store)) = Some (cell 5 1)
   \<and> zscore ''Alice'' (snd (move {} identity ''D'' ''Alice'' top_edge_store)) = Some 2
   \<and> coins (snd (move {} identity ''D'' ''Alice'' top_edge_store)) = [(''9,9'', ''5'')]"
proof -
  have d: "delta_of ''D'' = Some (Num 0, Num 1)" by (rule delta_of_recognized)
  have g: "get (player_key ''Alice'') top_edge_store = Some (cell 5 0)"
    by (simp add: get_def player_key_def top_edge_store_def cell_5_0)
  have z: "zscore ''Alice'' top_edge_store = Some 0" by (simp add: zscore_def top_edge_store_def)
  have c: "cell 5 1 = cell (nat (max 0 (min (int WIDTH - 1) (int 5 + 0)))) (nat (max 0 (min (int HEIGHT - 1) (int 0 + 1))))"
    by (simp add: WIDTH_def HEIGHT_def)
  have "hget ''5,1'' top_edge_store = Some ''2''" by (simp add: hget_def top_edge_store_def)
  then have h: "hget (cell 5 1) top_edge_store = Some (show_nat 2)"
    by (simp only: cell_numerals value_strings)
  note t = move_pickup [OF d g z c, of identity]
  have "AList.delete ''5,1'' (coins top_edge_store) = [(''9,9'', ''5'')]"
    by (simp add: top_edge_store_def AList.delete_eq)
  then have e: "AList.delete (cell 5 1) (coins top_edge_store) = [(''9,9'', ''5'')]"
    by (simp only: cell_numerals)
  from t have p: "get (player_key ''Alice'') (snd (move {} identity ''D'' ''Alice'' top_edge_store)) = Some (cell 5 1)"
    by (rule conjunct1)
  note u = t [THEN conjunct2, THEN conjunct1, THEN spec, THEN mp, OF h]
  from u [THEN conjunct1]
  have q: "zscore ''Alice'' (snd (move {} identity ''D'' ''Alice'' top_edge_store)) = Some 2"
    by simp
  from u [THEN conjunct2]
  have r: "coins (snd (move {} identity ''D'' ''Alice'' top_edge_store)) = [(''9,9'', ''5'')]"
    unfolding e by simp
  show ?thesis by (intro conjI d g z c h p q r)
qed


text \<open>
  The claim as stated fails on the last coin. In \<open>last_coin_store\<close> the cell \<open>(0, 0)\<close> holds
  the only coin, of value 1. Alice moves onto it and her score goes from 0 to 1, but
  after the move the cell \<open>(0, 0)\<close> holds a coin of value 1 again, among 100 coins.
\<close>

theorem move_pickup_counterexample:
  "hget ''0,0'' last_coin_store = Some ''1''
   \<and> zscore ''Alice'' last_coin_store = Some 0
   \<and> get (player_key ''Alice'') (snd (move {} identity ''L'' ''Alice'' last_coin_store)) = Some ''0,0''
   \<and> zscore ''Alice'' (snd (move {} identity ''L'' ''Alice'' last_coin_store)) = Some 1
   \<and> hget ''0,0'' (snd (move {} identity ''L'' ''Alice'' last_coin_store)) = Some ''1''
   \<and> length (coins (snd (move {} identity ''L'' ''Alice'' last_coin_store))) = 100"
  by (simp add: last_coin_move identity_field_origin identity_field_length get_placeCoins zscore_placeCoins)
    (simp add: hget_def zscore_def get_def player_key_def last_coin_store_def)

subsection \<open>The field between regular calls\<close>


lemma placeCoins_not_empty:
  assumes "each_index_once permutation (WIDTH * HEIGHT)"
  shows "coins (placeCoins {} permutation s) \<noteq> []"
  using placeCoins_hundred [OF assms, of s] by auto

lemma move_field_not_empty:
  assumes "coins s \<noteq> []" and "each_index_once permutation (WIDTH * HEIGHT)"
  shows "coins (snd (move {} permutation direction name s)) \<noteq> []"
  using assms
  by (simp add: move_def Let_def hlen_def placeCoins_not_empty split: option.splits)

lemma perform_field_not_empty:
  assumes "coins s \<noteq> []" and "regular c"
  shows "coins (perform c s) \<noteq> []"
proof (cases c)
  case (Pair flt k)
  show ?thesis using assms unfolding Pair
    by (cases k) (simp_all add: addPlayer_coins placeCoins_not_empty move_field_not_empty)
qed

lemma field_never_empty:
  "coins s \<noteq> [] \<Longrightarrow> list_all regular history \<Longrightarrow> coins (run history s) \<noteq> []"
  unfolding run_def
  by (induction history arbitrary: s) (simp_all add: perform_field_not_empty)

lemma field_after_startup:
  assumes "each_index_once permutation (WIDTH * HEIGHT)" and "list_all regular history"
  shows "coins (run (({}, PlaceCoins permutation) # history) s) \<noteq> []"
proof -
  have "coins (run history (placeCoins {} permutation s)) \<noteq> []"
    using placeCoins_not_empty [OF assms(1)] assms(2) by (rule field_never_empty)
  then show ?thesis by (simp add: run_def)
qed





subsection \<open>When the refill fails\<close>

text \<open>
  Outside regular histories the field can be empty between two calls: if \<^verbatim>\<open>EXEC\<close>
  fails in the refill after Alice took the last coin, no coin is set and the store is
  \<open>empty_field_store\<close>. The next answered move, which takes no coin, then ends in the
  refill branch and lays out the 100 coins.
\<close>

lemma failed_refill_leaves_empty_field:
  "snd (move {EXEC} identity ''L'' ''Alice'' last_coin_store) = empty_field_store"
proof -
  have "get (player_key ''Alice'') last_coin_store = Some ''1,0''"
    by (simp add: get_def player_key_def last_coin_store_def)
  then have g: "get (player_key ''Alice'') last_coin_store = Some (cell 1 0)"
    by (simp only: cell_numerals)
  have c: "cell (nat (max 0 (min (int WIDTH - 1) (int 1 + - 1)))) (nat (max 0 (min (int HEIGHT - 1) (int 0 + 0))))
      = ''0,0''"
    by (simp add: cell_numerals)
  have p: "pickup ''Alice'' ''0,0'' last_coin_store = empty_field_store"
    by (simp add: pickup_def hget_def last_coin_store_def zincrby_def toNumber_def nat_of_string_def
        digit_val_def zscore_def hdel_def set_string_def player_key_def AList.delete_eq
        empty_field_store_def)
  have "move {EXEC} identity ''L'' ''Alice'' last_coin_store
      = (Refilled, placeCoins {EXEC} identity empty_field_store)"
    using move_answered [OF delta_of_recognized(4) g, of "{EXEC}" identity]
    by (simp only: c p) (simp add: empty_field_store_def)
  then show ?thesis by (simp add: placeCoins_def Let_def del_coins_def empty_field_store_def)
qed


lemma empty_field_move_refills:
  "coins empty_field_store = []
   \<and> fst (move {} identity ''U'' ''Bob'' empty_field_store) = Refilled
   \<and> scores (snd (move {} identity ''U'' ''Bob'' empty_field_store)) = scores empty_field_store
   \<and> length (coins (snd (move {} identity ''U'' ''Bob'' empty_field_store))) = 100"
  by (simp add: empty_field_move identity_field_length placeCoins_frame)
    (simp add: empty_field_store_def)

end
